theory Spec2Isabelle
  imports Complex_Main
begin

section \<open>Python dictionaries\<close>

text \<open>
  A Python \<^verbatim>\<open>dict\<close> keeps its keys in insertion order and holds each key once.  It is
  modelled as an association list; \<open>dict_get\<close> is \<^verbatim>\<open>d.get(k, default)\<close> and
  \<open>dict_set\<close> is \<^verbatim>\<open>d[k] = v\<close> (an existing key keeps its place, a new key goes last).
\<close>

type_synonym ('k, 'v) dict = "('k \<times> 'v) list"

definition dict_get :: "('k, 'v) dict \<Rightarrow> 'k \<Rightarrow> 'v \<Rightarrow> 'v" where
  "dict_get d k dflt = (case map_of d k of None \<Rightarrow> dflt | Some v \<Rightarrow> v)"

fun dict_set :: "('k, 'v) dict \<Rightarrow> 'k \<Rightarrow> 'v \<Rightarrow> ('k, 'v) dict" where
  "dict_set [] k v = [(k, v)]"
| "dict_set ((k', v') # d) k v =
     (if k' = k then (k, v) # d else (k', v') # dict_set d k v)"

section \<open>Python strings and paths\<close>

text \<open>
  \<^verbatim>\<open>str.lower()\<close> on the bytes of a string: the letters \<^verbatim>\<open>A\<close> to \<^verbatim>\<open>Z\<close> go to lower case; the
  bytes of a character outside ASCII stay as they are.
\<close>

definition char_lower :: "char \<Rightarrow> char" where
  "char_lower c =
     (let n = (of_char c :: nat) in if 65 \<le> n \<and> n \<le> 90 then char_of (n + 32) else c)"

definition str_lower :: "string \<Rightarrow> string" where
  "str_lower s = map char_lower s"

text \<open>\<^verbatim>\<open>s.split(sep)\<close> for a separator of one character, and \<^verbatim>\<open>sep.join(parts)\<close>.\<close>

fun split_on :: "char \<Rightarrow> string \<Rightarrow> string list" where
  "split_on sep [] = [[]]"
| "split_on sep (c # cs) =
     (if c = sep then [] # split_on sep cs
      else case split_on sep cs of
             [] \<Rightarrow> [[c]]
           | part # parts \<Rightarrow> (c # part) # parts)"

fun join_with :: "string \<Rightarrow> string list \<Rightarrow> string" where
  "join_with sep [] = []"
| "join_with sep [part] = part"
| "join_with sep (part # parts) = part @ sep @ join_with sep parts"

text \<open>\<^verbatim>\<open>os.path.basename\<close>: what follows the last slash.\<close>

definition basename :: "string \<Rightarrow> string" where
  "basename p = rev (takeWhile (\<lambda>c. c \<noteq> CHR ''/'') (rev p))"

text \<open>
  \<^verbatim>\<open>os.path.splitext(p)[1]\<close>: the extension starts at the last dot of the base name, leading
  dots of the base name apart; it is empty when there is no such dot.
\<close>

definition splitext_ext :: "string \<Rightarrow> string" where
  "splitext_ext p =
     (let name = dropWhile (\<lambda>c. c = CHR ''.'') (basename p)
      in if CHR ''.'' \<in> set name
         then CHR ''.'' # rev (takeWhile (\<lambda>c. c \<noteq> CHR ''.'') (rev name))
         else [])"

section \<open>scanner.py: the data model\<close>

text \<open>
  \<^verbatim>\<open>Any\<close>-typed values that travel through \<^verbatim>\<open>stats\<close> and \<^verbatim>\<open>project_info\<close>: the values
  the JSON document format can hold.
\<close>

datatype pyval =
    PNone
  | PBool bool
  | PInt int
  | PFloat real
  | PStr string
  | PList "pyval list"
  | PDict "(string \<times> pyval) list"

text \<open>The dataclass \<^verbatim>\<open>VulnerabilityIssue\<close>, with the field types it declares.\<close>

record VulnerabilityIssue =
  severity :: string
  file_path :: string
  line_number :: "int option"
  code_snippet :: "string option"
  description :: string
  recommendation :: string
  cwe_id :: "string option"
  confidence :: string

text \<open>The dataclass \<^verbatim>\<open>ScanResult\<close>.\<close>

record ScanResult =
  scan_id :: string
  scan_path :: string
  scan_type :: string
  timestamp :: real
  issues :: "VulnerabilityIssue list"
  stats :: "(string, pyval) dict"
  project_info :: "(string, pyval) dict"

text \<open>The property \<^verbatim>\<open>total_issues\<close>: \<^verbatim>\<open>len(self.issues)\<close>.\<close>

definition total_issues :: "ScanResult \<Rightarrow> nat" where
  "total_issues r = length (issues r)"

text \<open>
  The property \<^verbatim>\<open>issues_by_severity\<close>: the dict starts with the five named levels at 0;
  the loop body is \<^verbatim>\<open>result[issue.severity] = result.get(issue.severity, 0) + 1\<close>.
\<close>

definition severity_init :: "(string, nat) dict" where
  "severity_init =
     [(''critical'', 0), (''high'', 0), (''medium'', 0), (''low'', 0), (''info'', 0)]"

fun count_severities :: "(string, nat) dict \<Rightarrow> VulnerabilityIssue list \<Rightarrow> (string, nat) dict" where
  "count_severities result [] = result"
| "count_severities result (issue # rest) =
     count_severities
       (dict_set result (severity issue) (dict_get result (severity issue) 0 + 1)) rest"

definition issues_by_severity :: "ScanResult \<Rightarrow> (string, nat) dict" where
  "issues_by_severity r = count_severities severity_init (issues r)"

section \<open>vulndb.py: the rule store and its merge\<close>

text \<open>
  A rule is a Python dict with string values under the keys of the data model.  A key
  that may be missing is an \<open>option\<close> (\<^verbatim>\<open>rule.get(key)\<close> is \<^verbatim>\<open>None\<close> then).  The merge reads
  two keys: \<^verbatim>\<open>rule.get('id', '')\<close>, where a missing id and the empty id are the same, and
  \<^verbatim>\<open>rule.get('pattern')\<close>.  The other keys travel with the rule.
\<close>

record RulePattern =
  rule_id :: string
  rule_name :: "string option"
  rule_pattern :: "string option"
  rule_description :: "string option"
  rule_severity :: "string option"
  rule_recommendation :: "string option"
  rule_languages :: "string list"
  rule_source :: "string option"
  rule_metadata :: "(string, pyval) dict option"

text \<open>\<^verbatim>\<open>self.patterns\<close>, and the batch \<^verbatim>\<open>new_rules\<close>: language to list of rules.\<close>

type_synonym rule_dict = "(string, RulePattern list) dict"

text \<open>\<^verbatim>\<open>del d[k]\<close>.\<close>

definition dict_del :: "('k, 'v) dict \<Rightarrow> 'k \<Rightarrow> ('k, 'v) dict" where
  "dict_del d k = filter (\<lambda>p. fst p \<noteq> k) d"

text \<open>Truth value of \<^verbatim>\<open>rule.get('pattern')\<close>: \<^verbatim>\<open>None\<close> and the empty string are false.\<close>

definition truthy :: "string option \<Rightarrow> bool" where
  "truthy p = (case p of None \<Rightarrow> False | Some s \<Rightarrow> s \<noteq> [])"

text \<open>The format \<^verbatim>\<open>f"{lang}-{n:04d}"\<close>: decimal digits, padded with zeros to width 4.\<close>

fun nat_digits :: "nat \<Rightarrow> string" where
  "nat_digits n =
     (if n < 10 then [''0123456789'' ! n]
      else nat_digits (n div 10) @ [''0123456789'' ! (n mod 10)])"

declare nat_digits.simps [simp del]

definition zero_pad4 :: "nat \<Rightarrow> string" where
  "zero_pad4 n = replicate (4 - length (nat_digits n)) (CHR ''0'') @ nat_digits n"

definition synth_id :: "string \<Rightarrow> nat \<Rightarrow> string" where
  "synth_id lang n = lang @ ''-'' @ zero_pad4 n"

text \<open>
  \<^verbatim>\<open>existing_ids = {rule.get('id', ''): i for i, rule in enumerate(self.patterns[lang])}\<close>,
  built once per bucket, before the bucket's incoming rules are processed.
\<close>

definition existing_ids :: "RulePattern list \<Rightarrow> (string, nat) dict" where
  "existing_ids bucket =
     fold (\<lambda>p d. dict_set d (rule_id (snd p)) (fst p)) (enumerate 0 bucket) []"

text \<open>
  An incoming rule with an empty id gets
  \<^verbatim>\<open>f"{lang}-{len(self.patterns[lang]) + total_added + 1:04d}"\<close>, written into the rule.
\<close>

definition assign_id :: "string \<Rightarrow> RulePattern list \<Rightarrow> nat \<Rightarrow> RulePattern \<Rightarrow> RulePattern" where
  "assign_id lang bucket total_added rule =
     (if rule_id rule = [] then rule\<lparr>rule_id := synth_id lang (length bucket + total_added + 1)\<rparr>
      else rule)"

text \<open>
  The body of \<^verbatim>\<open>for rule in rules\<close>.  The state is the bucket \<^verbatim>\<open>self.patterns[lang]\<close> and
  \<^verbatim>\<open>total_added\<close>; \<open>ids\<close> is \<^verbatim>\<open>existing_ids\<close>, which the loop never updates.
\<close>

definition merge_rule ::
  "string \<Rightarrow> (string, nat) dict \<Rightarrow> RulePattern list \<times> nat \<Rightarrow> RulePattern \<Rightarrow> RulePattern list \<times> nat" where
  "merge_rule lang ids st rule0 =
     (let bucket = fst st; total_added = snd st;
          rule = assign_id lang bucket total_added rule0
      in case map_of ids (rule_id rule) of
           Some index \<Rightarrow>
             if truthy (rule_pattern rule)
                \<and> rule_pattern rule \<noteq> rule_pattern (bucket ! index)
             then (bucket[index := rule], total_added)
             else (bucket, total_added)
         | None \<Rightarrow> (bucket @ [rule], total_added + 1))"

definition merge_bucket ::
  "string \<Rightarrow> RulePattern list \<Rightarrow> nat \<Rightarrow> RulePattern list \<Rightarrow> RulePattern list \<times> nat" where
  "merge_bucket lang bucket0 total_added rules =
     fold (\<lambda>rule st. merge_rule lang (existing_ids bucket0) st rule) rules (bucket0, total_added)"

text \<open>
  The body of \<^verbatim>\<open>for lang, rules in new_rules.items()\<close>: the bucket is created when the
  language is new, the rules are processed, and a bucket left empty is deleted.
\<close>

definition merge_lang :: "rule_dict \<times> nat \<Rightarrow> string \<times> RulePattern list \<Rightarrow> rule_dict \<times> nat" where
  "merge_lang st entry =
     (let patterns = fst st; lang = fst entry;
          patterns1 = (if map_of patterns lang = None then dict_set patterns lang [] else patterns);
          res = merge_bucket lang (dict_get patterns1 lang []) (snd st) (snd entry);
          patterns2 = dict_set patterns1 lang (fst res)
      in (if fst res = [] then dict_del patterns2 lang else patterns2, snd res))"

text \<open>
  \<^verbatim>\<open>VulnerabilityDB._merge_rules\<close>: the new store and the returned \<^verbatim>\<open>total_added\<close>.  On a
  batch of rule dicts no statement of the \<^verbatim>\<open>try\<close> block raises (the one partial read,
  \<^verbatim>\<open>self.patterns[lang][index]\<close>, is in range by \<open>existing_ids_in_range\<close> and
  \<open>merge_bucket_keeps\<close> below), so the \<^verbatim>\<open>except\<close> branch has no counterpart here.
  Writing the store to its file (when \<^verbatim>\<open>total_added > 0\<close>) is not modelled.
\<close>

definition merge_rules :: "rule_dict \<Rightarrow> rule_dict \<Rightarrow> rule_dict \<times> nat" where
  "merge_rules patterns new_rules = fold (\<lambda>entry st. merge_lang st entry) new_rules (patterns, 0)"


text \<open>
  The merge leaves the ids of the slots a bucket had at the start as they were: a slot is
  only ever overwritten by a rule with the slot's id.
\<close>

definition keeps_ids :: "RulePattern list \<Rightarrow> RulePattern list \<Rightarrow> bool" where
  "keeps_ids bucket0 bucket =
     (length bucket0 \<le> length bucket \<and> map rule_id (take (length bucket0) bucket) = map rule_id bucket0)"

text \<open>
  The invariant the specification gives the rule store: no bucket is empty, and within a
  bucket the ids are unique.
\<close>

definition store_invariant :: "rule_dict \<Rightarrow> bool" where
  "store_invariant patterns =
     list_all (\<lambda>e. snd e \<noteq> [] \<and> distinct (map rule_id (snd e))) patterns"

text \<open>
  The store already contains the batch: every rule of the batch has, in the bucket of its
  language, a stored rule with the same id and the same pattern string.
\<close>

definition contains_batch :: "rule_dict \<Rightarrow> rule_dict \<Rightarrow> bool" where
  "contains_batch patterns batch =
     list_all (\<lambda>e. list_all (\<lambda>r. list_ex (\<lambda>s. rule_id s = rule_id r \<and> rule_pattern s = rule_pattern r)
                                     (dict_get patterns (fst e) [])) (snd e)) batch"

text \<open>Every rule of the batch carries an id (none is empty).\<close>

definition ids_given :: "rule_dict \<Rightarrow> bool" where
  "ids_given batch = list_all (\<lambda>e. list_all (\<lambda>r. rule_id r \<noteq> []) (snd e)) batch"

text \<open>Concrete rules and stores.\<close>

definition example_rule :: "string \<Rightarrow> string \<Rightarrow> RulePattern" where
  "example_rule i p =
     \<lparr>rule_id = i, rule_name = Some ''n'', rule_pattern = Some p, rule_description = Some ''d'',
      rule_severity = Some ''high'', rule_recommendation = None, rule_languages = [''python''],
      rule_source = Some ''user'', rule_metadata = None\<rparr>"

definition example_store :: rule_dict where
  "example_store = [(''python'', [example_rule ''py-1'' ''eval''])]"

definition unnamed_store :: rule_dict where
  "unnamed_store = [(''python'', [example_rule [] ''eval''])]"

section \<open>scanner.py: exceptions and the scan of a directory\<close>

text \<open>
  An exception that \<^verbatim>\<open>except Exception\<close> catches: its class and \<^verbatim>\<open>str(e)\<close>.  The adapter's
  failures (authentication, timeout, connection) are three of the classes.
\<close>

datatype exn_class =
    AuthenticationError
  | APITimeoutError
  | APIConnectionError
  | ValueError
  | TypeError
  | OSError
  | OtherException string

datatype py_exn = Raised exn_class string

fun exn_str :: "py_exn \<Rightarrow> string" where
  "exn_str (Raised c msg) = msg"

text \<open>
  The texts handed to \<^verbatim>\<open>progress_callback\<close>, by the place of the call: collecting files,
  the number of files found, no file to scan, scanning (completed, total, base name of
  the file), generating statistics, project analysis, finishing, and the text of a failure;
  and the two texts the scan thread of the GUI emits itself: preparing to scan the
  directory (with its path) and writing the final report.
\<close>

datatype progress_message =
    MsgCollecting
  | MsgFound nat
  | MsgNoFiles
  | MsgScanning nat nat string
  | MsgStatistics
  | MsgProjectAnalysis
  | MsgFinishing
  | MsgScanError string
  | MsgPreparing string
  | MsgFinalReport

text \<open>
  What a scan does that is seen from outside, in order: a call of \<^verbatim>\<open>progress_callback\<close>
  with its text and percentage, and the hand-over of a file to the executor
  (\<^verbatim>\<open>executor.submit(self.scan_file, file_path)\<close>).
\<close>

datatype scan_event = Progress progress_message nat | Submit string

text \<open>
  What the scan of a directory gets from outside itself: \<^verbatim>\<open>os.path.isdir\<close>, the clock,
  the outcome of \<^verbatim>\<open>self._collect_files(dir_path)\<close>, the order in which the futures
  complete, the outcome of \<^verbatim>\<open>future.result()\<close> for a file, and the outcome of
  \<^verbatim>\<open>self._generate_project_info(dir_path, stats)\<close>.  Each outcome is a value or the
  exception raised.
\<close>

record scan_env =
  env_isdir :: bool
  env_time :: nat
  env_timestamp :: real
  env_collect :: "py_exn + string list"
  env_schedule :: "nat \<Rightarrow> nat"
  env_scan_file :: "string \<Rightarrow> py_exn + ScanResult"
  env_project_info :: "(string, pyval) dict \<Rightarrow> py_exn + (string, pyval) dict"

text \<open>
  \<^verbatim>\<open>as_completed(future_to_file)\<close> yields every future once, in the order of completion.
  The order is the environment's: at step \<open>k\<close> the pending future number
  \<open>env_schedule k\<close> (modulo the number of pending ones) completes.
\<close>

function as_completed :: "(nat \<Rightarrow> nat) \<Rightarrow> nat \<Rightarrow> 'a list \<Rightarrow> 'a list" where
  "as_completed sched k pending =
     (if pending = [] then []
      else let i = sched k mod length pending
           in pending ! i # as_completed sched (Suc k) (take i pending @ drop (Suc i) pending))"
  by pat_completeness auto
termination
  apply (relation "measure (\<lambda>(sched, k, pending). length pending)")
   apply simp
  subgoal premises prems for sched k pending i
  proof -
    from prems(1) have "sched k mod length pending < length pending" by simp
    with prems(2) show ?thesis by simp
  qed
  done

declare as_completed.simps [simp del]

text \<open>The text \<^verbatim>\<open>"error"\<close> of a scan that found no file, in UTF-8.\<close>

definition no_files_error :: string where
  "no_files_error =
     [CHR 0xE6, CHR 0xB2, CHR 0xA1, CHR 0xE6, CHR 0x9C, CHR 0x89, CHR 0xE6, CHR 0x89, CHR 0xBE,
      CHR 0xE5, CHR 0x88, CHR 0xB0, CHR 0xE5, CHR 0x8F, CHR 0xAF, CHR 0xE6, CHR 0x89, CHR 0xAB,
      CHR 0xE6, CHR 0x8F, CHR 0x8F, CHR 0xE7, CHR 0x9A, CHR 0x84, CHR 0xE6, CHR 0x96, CHR 0x87,
      CHR 0xE4, CHR 0xBB, CHR 0xB6]"

text \<open>The text of the \<^verbatim>\<open>ValueError\<close> for a path that is no directory ends with the path.\<close>

definition dir_missing_prefix :: string where
  "dir_missing_prefix =
     [CHR 0xE7, CHR 0x9B, CHR 0xAE, CHR 0xE5, CHR 0xBD, CHR 0x95, CHR 0xE4, CHR 0xB8, CHR 0x8D,
      CHR 0xE5, CHR 0xAD, CHR 0x98, CHR 0xE5, CHR 0x9C, CHR 0xA8] @ '': ''"

text \<open>The local variables the loop over the completed futures updates.\<close>

record scan_acc =
  acc_issues :: "VulnerabilityIssue list"
  acc_total_lines :: int
  acc_languages :: "(string, nat) dict"
  acc_file_counts :: "(string, nat) dict"

text \<open>
  The \<^verbatim>\<open>try\<close> block of the loop body, for the future of the file \<open>fpath\<close>.  An exception ends the
  block and is logged; what the block did before stays.  \<^verbatim>\<open>scan_file\<close> stores an \<^verbatim>\<open>int\<close>
  under \<^verbatim>\<open>"lines_of_code"\<close> and a \<^verbatim>\<open>str\<close> under \<^verbatim>\<open>"language"\<close>; a value of another kind ends
  the block here, as the \<^verbatim>\<open>TypeError\<close> of \<^verbatim>\<open>int + str\<close> or of an unhashable key does.
\<close>

definition absorb_result :: "scan_env \<Rightarrow> string \<Rightarrow> scan_acc \<Rightarrow> scan_acc" where
  "absorb_result env fpath acc =
     (case env_scan_file env fpath of
        Inl e \<Rightarrow> acc
      | Inr result \<Rightarrow>
          (let acc1 = acc\<lparr>acc_issues := acc_issues acc @ issues result\<rparr> in
           case (case map_of (stats result) ''lines_of_code'' of
                   None \<Rightarrow> Some acc1
                 | Some (PInt n) \<Rightarrow> Some (acc1\<lparr>acc_total_lines := acc_total_lines acc1 + n\<rparr>)
                 | Some other \<Rightarrow> None) of
             None \<Rightarrow> acc1
           | Some acc2 \<Rightarrow>
               (case (case map_of (stats result) ''language'' of
                        None \<Rightarrow> Some acc2
                      | Some (PStr lang) \<Rightarrow>
                          Some (acc2\<lparr>acc_languages :=
                                  dict_set (acc_languages acc2) lang
                                    (dict_get (acc_languages acc2) lang 0 + 1)\<rparr>)
                      | Some other \<Rightarrow> None) of
                  None \<Rightarrow> acc2
                | Some acc3 \<Rightarrow>
                    acc3\<lparr>acc_file_counts :=
                           dict_set (acc_file_counts acc3) (str_lower (splitext_ext fpath))
                             (dict_get (acc_file_counts acc3) (str_lower (splitext_ext fpath)) 0 + 1)\<rparr>)))"

text \<open>
  The loop \<^verbatim>\<open>for future in as_completed(future_to_file)\<close> over the files in their order of
  completion.  The percentage is \<^verbatim>\<open>10 + int(70.0 * completed_files / total_files)\<close>; the
  quotient is below \<open>2^53\<close>, where the float quotient truncates to the integer quotient.
\<close>

fun scan_loop ::
  "scan_env \<Rightarrow> nat \<Rightarrow> string list \<Rightarrow> nat \<Rightarrow> scan_acc \<Rightarrow> scan_acc \<times> scan_event list" where
  "scan_loop env total_files [] completed_files acc = (acc, [])"
| "scan_loop env total_files (fpath # rest) completed_files acc =
     (let acc' = absorb_result env fpath acc;
          completed' = completed_files + 1;
          progress = 10 + (70 * completed') div total_files;
          res = scan_loop env total_files rest completed' acc'
      in (fst res,
          Progress (MsgScanning completed' total_files (basename fpath)) progress # snd res))"

text \<open>
  \<^verbatim>\<open>CodeScanner.scan_directory\<close>, called with a \<^verbatim>\<open>progress_callback\<close>: the exception it
  raises or the \<^verbatim>\<open>ScanResult\<close> it returns, and the events in their order.  The
  \<^verbatim>\<open>ValueError\<close> for a path that is no directory is raised before the \<^verbatim>\<open>try\<close>; every
  exception inside the \<^verbatim>\<open>try\<close> (from the collection, from \<^verbatim>\<open>ThreadPoolExecutor\<close> when
  \<^verbatim>\<open>max_workers\<close> is not positive, from the project analysis) ends in the handler, which
  stores the text under \<^verbatim>\<open>"error"\<close> and reports 100.
\<close>

definition scan_directory ::
  "scan_env \<Rightarrow> string \<Rightarrow> int \<Rightarrow> (py_exn + ScanResult) \<times> scan_event list" where
  "scan_directory env dir_path max_workers =
     (if \<not> env_isdir env then (Inl (Raised ValueError (dir_missing_prefix @ dir_path)), [])
      else
        let scan_result =
              \<lparr>scan_id = ''dir_'' @ nat_digits (env_time env), scan_path = dir_path,
               scan_type = ''directory'', timestamp = env_timestamp env, issues = [],
               stats = [], project_info = []\<rparr>;
            ev1 = [Progress MsgCollecting 5]
        in case env_collect env of
             Inl e \<Rightarrow>
               (Inr (scan_result\<lparr>stats := [(''error'', PStr (exn_str e))]\<rparr>),
                ev1 @ [Progress (MsgScanError (exn_str e)) 100])
           | Inr files_to_scan \<Rightarrow>
               let ev2 = ev1 @ [Progress (MsgFound (length files_to_scan)) 10] in
               if files_to_scan = [] then
                 (Inr (scan_result\<lparr>stats := [(''error'', PStr no_files_error)]\<rparr>),
                  ev2 @ [Progress MsgNoFiles 100])
               else if max_workers \<le> 0 then
                 (Inr (scan_result\<lparr>stats := [(''error'', PStr ''max_workers must be greater than 0'')]\<rparr>),
                  ev2 @ [Progress (MsgScanError ''max_workers must be greater than 0'') 100])
               else
                 let total_files = length files_to_scan;
                     ev3 = ev2 @ map Submit files_to_scan;
                     looped = scan_loop env total_files
                                (as_completed (env_schedule env) 0 files_to_scan) 0
                                \<lparr>acc_issues = [], acc_total_lines = 0, acc_languages = [],
                                 acc_file_counts = []\<rparr>;
                     acc = fst looped;
                     ev4 = ev3 @ snd looped @ [Progress MsgStatistics 85];
                     new_stats =
                       [(''total_files'', PInt (int (length files_to_scan))),
                        (''total_lines_of_code'', PInt (acc_total_lines acc)),
                        (''languages'', PDict (map (\<lambda>p. (fst p, PInt (int (snd p)))) (acc_languages acc))),
                        (''file_extensions'', PDict (map (\<lambda>p. (fst p, PInt (int (snd p)))) (acc_file_counts acc)))];
                     scan_result1 = scan_result\<lparr>issues := acc_issues acc, stats := new_stats\<rparr>;
                     ev5 = ev4 @ [Progress MsgProjectAnalysis 90]
                 in case env_project_info env new_stats of
                      Inl e \<Rightarrow>
                        (Inr (scan_result1\<lparr>stats := [(''error'', PStr (exn_str e))]\<rparr>),
                         ev5 @ [Progress (MsgScanError (exn_str e)) 100])
                    | Inr info \<Rightarrow>
                        (Inr (scan_result1\<lparr>project_info := info\<rparr>),
                         ev5 @ [Progress MsgFinishing 95]))"

text \<open>The percentages handed to the callback, in the order of the calls.\<close>

fun event_percent :: "scan_event \<Rightarrow> nat list" where
  "event_percent (Progress msg percent) = [percent]"
| "event_percent (Submit fpath) = []"

definition percents :: "scan_event list \<Rightarrow> nat list" where
  "percents events = concat (map event_percent events)"

section \<open>gui.py: the scan thread and the interruption flag\<close>

text \<open>
  The interruption flag is set by another thread and read here by
  \<^verbatim>\<open>self.isInterruptionRequested()\<close>.  The reads of one run are numbered from 0; once set the
  flag stays set, so it is given by the number of the first read that sees it set, if
  there is one.
\<close>

type_synonym interruption = "nat option"

definition isInterruptionRequested :: "interruption \<Rightarrow> nat \<Rightarrow> bool" where
  "isInterruptionRequested flag n = (case flag of None \<Rightarrow> False | Some k \<Rightarrow> k \<le> n)"

text \<open>
  What \<^verbatim>\<open>ScanThread.run\<close> does, in order: a read of the flag with its answer, the hand-over
  of a file to the worker pool inside \<^verbatim>\<open>scan_directory\<close>, and the three signals
  \<^verbatim>\<open>scan_progress\<close>, \<^verbatim>\<open>scan_complete\<close> and \<^verbatim>\<open>scan_error\<close>.
\<close>

datatype thread_event =
    Poll bool
  | Dispatch string
  | EmitProgress progress_message nat
  | EmitComplete ScanResult
  | EmitError string

text \<open>
  The callback \<^verbatim>\<open>progress_update\<close> handed to \<^verbatim>\<open>scan_directory\<close>: it reads the flag and emits
  \<^verbatim>\<open>scan_progress\<close> unless the flag is set.  \<open>relay\<close> runs it on the calls the scanner makes;
  \<open>n\<close> counts the reads of the flag.
\<close>

fun relay :: "interruption \<Rightarrow> nat \<Rightarrow> scan_event list \<Rightarrow> thread_event list \<times> nat" where
  "relay flag n [] = ([], n)"
| "relay flag n (Submit fpath # es) =
     (let r = relay flag n es in (Dispatch fpath # fst r, snd r))"
| "relay flag n (Progress msg percent # es) =
     (let r = relay flag (Suc n) es
      in (Poll (isInterruptionRequested flag n)
            # (if isInterruptionRequested flag n then [] else [EmitProgress msg percent]) @ fst r,
          snd r))"

text \<open>The \<^verbatim>\<open>except Exception\<close> handler of \<^verbatim>\<open>run\<close>, at read number \<open>n\<close>.\<close>

definition run_handler :: "interruption \<Rightarrow> nat \<Rightarrow> py_exn \<Rightarrow> thread_event list" where
  "run_handler flag n e =
     Poll (isInterruptionRequested flag n)
       # (if isInterruptionRequested flag n then [] else [EmitError (exn_str e)])"

text \<open>
  The end of \<^verbatim>\<open>run\<close> after \<^verbatim>\<open>scan_directory\<close>: an exception goes to the handler; otherwise
  the flag is read at the end of the directory branch and again before the final progress
  signal and \<^verbatim>\<open>scan_complete\<close> (\<^verbatim>\<open>self.result\<close> is the scan result, never \<^verbatim>\<open>None\<close>).
\<close>

definition run_tail :: "interruption \<Rightarrow> nat \<Rightarrow> py_exn + ScanResult \<Rightarrow> thread_event list" where
  "run_tail flag n outcome =
     (case outcome of
        Inl e \<Rightarrow> run_handler flag n e
      | Inr result \<Rightarrow>
          Poll (isInterruptionRequested flag n) #
          (if isInterruptionRequested flag n then []
           else
             Poll (isInterruptionRequested flag (Suc n)) #
             (if isInterruptionRequested flag (Suc n) then []
              else [EmitProgress MsgFinalReport 98, EmitComplete result])))"

text \<open>
  \<^verbatim>\<open>ScanThread.run\<close> for a scan type that selects the directory branch.  \<open>init\<close> is the
  exception \<^verbatim>\<open>CodeScanner(model_name=...)\<close> raises, if it raises.  The GUI calls
  \<^verbatim>\<open>scan_directory\<close> with the default \<^verbatim>\<open>max_workers = 5\<close>.  A read of the flag and the emit
  that follows it are consecutive statements of one thread.
\<close>

definition run_directory_scan ::
  "py_exn option \<Rightarrow> scan_env \<Rightarrow> interruption \<Rightarrow> string \<Rightarrow> thread_event list" where
  "run_directory_scan init env flag path =
     (case init of
        Some e \<Rightarrow> run_handler flag 0 e
      | None \<Rightarrow>
          Poll (isInterruptionRequested flag 0) #
          (if isInterruptionRequested flag 0 then []
           else
             let scanned = scan_directory env path 5;
                 relayed = relay flag 1 (snd scanned)
             in EmitProgress (MsgPreparing path) 0 # fst relayed @
                run_tail flag (snd relayed) (fst scanned)))"

text \<open>A signal: one of the three emits.\<close>

fun is_signal :: "thread_event \<Rightarrow> bool" where
  "is_signal (Poll b) = False"
| "is_signal (Dispatch fpath) = False"
| "is_signal (EmitProgress msg percent) = True"
| "is_signal (EmitComplete result) = True"
| "is_signal (EmitError msg) = True"

fun is_dispatch :: "thread_event \<Rightarrow> bool" where
  "is_dispatch (Dispatch fpath) = True"
| "is_dispatch other = False"

text \<open>A read of the flag.\<close>

fun is_poll :: "thread_event \<Rightarrow> bool" where
  "is_poll (Poll b) = True"
| "is_poll other = False"

text \<open>
  Read off the events of the scanner: the files it hands to the executor, and the base
  names of the files whose completion it reports (the calls of the callback made in the
  loop over the completed futures).
\<close>

fun submitted :: "scan_event list \<Rightarrow> string list" where
  "submitted [] = []"
| "submitted (Submit fpath # es) = fpath # submitted es"
| "submitted (Progress msg percent # es) = submitted es"

fun scanning_reports :: "scan_event list \<Rightarrow> string list" where
  "scanning_reports [] = []"
| "scanning_reports (Progress (MsgScanning done_count file_count name) percent # es) =
     name # scanning_reports es"
| "scanning_reports (e # es) = scanning_reports es"

text \<open>No signal follows a read that saw the flag set.\<close>

fun quiet_after_set :: "thread_event list \<Rightarrow> bool" where
  "quiet_after_set [] = True"
| "quiet_after_set (e # es) =
     ((if e = Poll True then list_all (\<lambda>x. \<not> is_signal x) es else True) \<and> quiet_after_set es)"

text \<open>No file is handed to the worker pool after a read that saw the flag set.\<close>

fun no_dispatch_after_set :: "thread_event list \<Rightarrow> bool" where
  "no_dispatch_after_set [] = True"
| "no_dispatch_after_set (e # es) =
     ((if e = Poll True then list_all (\<lambda>x. \<not> is_dispatch x) es else True)
      \<and> no_dispatch_after_set es)"

text \<open>A concrete run: a directory with one file, whose scan finds nothing.\<close>

definition empty_result :: "string \<Rightarrow> ScanResult" where
  "empty_result path =
     \<lparr>scan_id = ''file_0'', scan_path = path, scan_type = ''file'', timestamp = 0, issues = [],
      stats = [(''lines_of_code'', PInt 1), (''language'', PStr ''python'')],
      project_info = []\<rparr>"

definition one_file_env :: scan_env where
  "one_file_env =
     \<lparr>env_isdir = True, env_time = 0, env_timestamp = 0,
      env_collect = Inr [''proj/a.py''], env_schedule = (\<lambda>k. 0),
      env_scan_file = (\<lambda>fpath. Inr (empty_result fpath)),
      env_project_info = (\<lambda>st. Inr [])\<rparr>"

section \<open>utils.py and scanner.py: the analysis of one file\<close>

text \<open>\<^verbatim>\<open>FILE_EXTENSIONS\<close> and \<^verbatim>\<open>get_file_language\<close> of utils.py.\<close>

definition FILE_EXTENSIONS :: "(string, string) dict" where
  "FILE_EXTENSIONS =
     [(''.py'', ''python''), (''.js'', ''javascript''), (''.ts'', ''typescript''),
      (''.jsx'', ''javascript''), (''.tsx'', ''typescript''), (''.java'', ''java''),
      (''.c'', ''c''), (''.cpp'', ''c++''), (''.cs'', ''c#''), (''.go'', ''golang''),
      (''.rs'', ''rust''), (''.php'', ''php''), (''.rb'', ''ruby''), (''.swift'', ''swift''),
      (''.kt'', ''kotlin''), (''.scala'', ''scala''), (''.m'', ''objective-c''), (''.h'', ''c''),
      (''.sh'', ''bash''), (''.bat'', ''batch''), (''.ps1'', ''powershell''), (''.sql'', ''sql''),
      (''.html'', ''html''), (''.css'', ''css''), (''.scss'', ''scss''), (''.less'', ''less''),
      (''.xml'', ''xml''), (''.json'', ''json''), (''.yaml'', ''yaml''), (''.yml'', ''yaml''),
      (''.md'', ''markdown''), (''.tex'', ''latex''), (''.r'', ''r''), (''.dart'', ''dart''),
      (''.lua'', ''lua''), (''.pl'', ''perl''), (''.groovy'', ''groovy''),
      (''.vb'', ''visual basic'')]"

definition get_file_language :: "string \<Rightarrow> string" where
  "get_file_language fpath = dict_get FILE_EXTENSIONS (splitext_ext (str_lower fpath)) ''unknown''"

text \<open>
  \<^verbatim>\<open>VulnerabilityDB.get_patterns_for_language\<close>: the common bucket, then the bucket of the
  language.
\<close>

definition get_patterns_for_language :: "rule_dict \<Rightarrow> string \<Rightarrow> RulePattern list" where
  "get_patterns_for_language patterns language =
     dict_get patterns ''common'' [] @ dict_get patterns (str_lower language) []"

text \<open>The prefix of the description of the finding made from an exception, before \<^verbatim>\<open>str(e)\<close> (UTF-8).\<close>

definition api_error_prefix :: string where
  "api_error_prefix =
     ''API'' @
     [CHR 0xE8, CHR 0xBF, CHR 0x9E, CHR 0xE6, CHR 0x8E, CHR 0xA5, CHR 0xE9, CHR 0x94, CHR 0x99,
      CHR 0xE8, CHR 0xAF, CHR 0xAF] @
     '': ''"

text \<open>Its recommendation: check the API configuration, the key and the network (UTF-8).\<close>

definition api_error_recommendation :: string where
  "api_error_recommendation =
     [CHR 0xE8, CHR 0xAF, CHR 0xB7, CHR 0xE5, CHR 0x9C, CHR 0xA8, CHR 0xE8, CHR 0xAE, CHR 0xBE,
      CHR 0xE7, CHR 0xBD, CHR 0xAE, CHR 0xE4, CHR 0xB8, CHR 0xAD, CHR 0xE6, CHR 0xA3, CHR 0x80,
      CHR 0xE6, CHR 0x9F, CHR 0xA5, CHR 0xE6, CHR 0x82, CHR 0xA8, CHR 0xE7, CHR 0x9A, CHR 0x84] @
     ''API'' @
     [CHR 0xE9, CHR 0x85, CHR 0x8D, CHR 0xE7, CHR 0xBD, CHR 0xAE, CHR 0xEF, CHR 0xBC, CHR 0x8C,
      CHR 0xE7, CHR 0xA1, CHR 0xAE, CHR 0xE4, CHR 0xBF, CHR 0x9D] @
     ''API'' @
     [CHR 0xE5, CHR 0xAF, CHR 0x86, CHR 0xE9, CHR 0x92, CHR 0xA5, CHR 0xE6, CHR 0xAD, CHR 0xA3,
      CHR 0xE7, CHR 0xA1, CHR 0xAE, CHR 0xE4, CHR 0xB8, CHR 0x94, CHR 0xE7, CHR 0xBD, CHR 0x91,
      CHR 0xE7, CHR 0xBB, CHR 0x9C, CHR 0xE8, CHR 0xBF, CHR 0x9E, CHR 0xE6, CHR 0x8E, CHR 0xA5,
      CHR 0xE6, CHR 0xAD, CHR 0xA3, CHR 0xE5, CHR 0xB8, CHR 0xB8, CHR 0xE3, CHR 0x80, CHR 0x82]"

text \<open>The description of the finding made when the answer is not JSON (UTF-8).\<close>

definition not_json_description :: string where
  "not_json_description =
     [CHR 0xE6, CHR 0xA8, CHR 0xA1, CHR 0xE5, CHR 0x9E, CHR 0x8B, CHR 0xE6, CHR 0x9C, CHR 0xAA,
      CHR 0xE8, CHR 0xBF, CHR 0x94, CHR 0xE5, CHR 0x9B, CHR 0x9E, CHR 0xE6, CHR 0xA0, CHR 0x87,
      CHR 0xE5, CHR 0x87, CHR 0x86] @
     ''JSON'' @
     [CHR 0xE6, CHR 0xA0, CHR 0xBC, CHR 0xE5, CHR 0xBC, CHR 0x8F, CHR 0xEF, CHR 0xBC, CHR 0x8C,
      CHR 0xE6, CHR 0x97, CHR 0xA0, CHR 0xE6, CHR 0xB3, CHR 0x95, CHR 0xE5, CHR 0xAE, CHR 0x8C,
      CHR 0xE6, CHR 0x88, CHR 0x90, CHR 0xE6, CHR 0xB7, CHR 0xB1, CHR 0xE5, CHR 0xBA, CHR 0xA6,
      CHR 0xE5, CHR 0x88, CHR 0x86, CHR 0xE6, CHR 0x9E, CHR 0x90]"

text \<open>Its recommendation: check the API settings and retry (UTF-8).\<close>

definition not_json_recommendation :: string where
  "not_json_recommendation =
     [CHR 0xE8, CHR 0xAF, CHR 0xB7, CHR 0xE6, CHR 0xA3, CHR 0x80, CHR 0xE6, CHR 0x9F, CHR 0xA5] @
     ''API'' @
     [CHR 0xE8, CHR 0xAE, CHR 0xBE, CHR 0xE7, CHR 0xBD, CHR 0xAE, CHR 0xE5, CHR 0xB9, CHR 0xB6,
      CHR 0xE9, CHR 0x87, CHR 0x8D, CHR 0xE8, CHR 0xAF, CHR 0x95]"

text \<open>The default description of a finding of the model (UTF-8).\<close>

definition default_description :: string where
  "default_description =
     [CHR 0xE6, CHR 0x9C, CHR 0xAA, CHR 0xE6, CHR 0x8F, CHR 0x90, CHR 0xE4, CHR 0xBE, CHR 0x9B,
      CHR 0xE6, CHR 0x8F, CHR 0x8F, CHR 0xE8, CHR 0xBF, CHR 0xB0]"

text \<open>The default description of a finding of a rule (UTF-8).\<close>

definition default_rule_description :: string where
  "default_rule_description =
     [CHR 0xE5, CHR 0x8F, CHR 0x91, CHR 0xE7, CHR 0x8E, CHR 0xB0, CHR 0xE6, CHR 0xBD, CHR 0x9C,
      CHR 0xE5, CHR 0x9C, CHR 0xA8, CHR 0xE6, CHR 0xBC, CHR 0x8F, CHR 0xE6, CHR 0xB4, CHR 0x9E]"

text \<open>The default recommendation of a finding of a rule (UTF-8).\<close>

definition default_rule_recommendation :: string where
  "default_rule_recommendation =
     [CHR 0xE8, CHR 0xAF, CHR 0xB7, CHR 0xE6, CHR 0xA3, CHR 0x80, CHR 0xE6, CHR 0x9F, CHR 0xA5,
      CHR 0xE6, CHR 0xAD, CHR 0xA4, CHR 0xE5, CHR 0xA4, CHR 0x84, CHR 0xE4, CHR 0xBB, CHR 0xA3,
      CHR 0xE7, CHR 0xA0, CHR 0x81]"

text \<open>
  What the analysis of a file gets from outside itself: the adapter
  \<^verbatim>\<open>self.model.analyze_code\<close> (its answer, or the exception it raises), the text of the
  prompt built from language, path and content, the decoding of the answer, and the
  regular expression engine.
\<close>

text \<open>
  One entry of the decoded JSON array, read with \<^verbatim>\<open>issue_data.get\<close>: the keys it has, with
  their values.
\<close>

record issue_data =
  d_severity :: "string option"
  d_line_number :: "int option"
  d_code_snippet :: "string option"
  d_description :: "string option"
  d_recommendation :: "string option"
  d_cwe_id :: "string option"
  d_confidence :: "string option"

text \<open>
  The outcome of the search for the JSON part of the answer and of \<^verbatim>\<open>json.loads\<close>: the
  decoded entries, \<^verbatim>\<open>json.JSONDecodeError\<close>, or another exception (the decoded value is no
  list of objects).
\<close>

datatype decode_outcome = Decoded "issue_data list" | NotJson | DecodeRaised py_exn

record analyzer_env =
  an_model :: "string \<Rightarrow> py_exn + string"
  an_prompt :: "string \<Rightarrow> string \<Rightarrow> string \<Rightarrow> string"
  an_decode :: "string \<Rightarrow> decode_outcome"
  an_regex :: "string \<Rightarrow> py_exn + (string \<Rightarrow> bool)"

text \<open>
  \<open>an_regex env p\<close> is \<^verbatim>\<open>re.compile(p, re.IGNORECASE)\<close>: the exception for a pattern that
  does not compile, or the test \<^verbatim>\<open>pattern_re.search(text)\<close>.
\<close>

definition or_default :: "'a option \<Rightarrow> 'a \<Rightarrow> 'a" where
  "or_default v dflt = (case v of None \<Rightarrow> dflt | Some x \<Rightarrow> x)"

text \<open>The finding built from one decoded entry.\<close>

definition issue_of_data :: "string \<Rightarrow> issue_data \<Rightarrow> VulnerabilityIssue" where
  "issue_of_data fpath d =
     \<lparr>severity = or_default (d_severity d) ''medium'', file_path = fpath,
      line_number = d_line_number d, code_snippet = d_code_snippet d,
      description = or_default (d_description d) default_description,
      recommendation = or_default (d_recommendation d) [],
      cwe_id = d_cwe_id d, confidence = or_default (d_confidence d) ''medium''\<rparr>"

text \<open>The finding made when \<^verbatim>\<open>json.loads\<close> raises \<^verbatim>\<open>JSONDecodeError\<close>.\<close>

definition not_json_issue :: "string \<Rightarrow> VulnerabilityIssue" where
  "not_json_issue fpath =
     \<lparr>severity = ''info'', file_path = fpath, line_number = None, code_snippet = None,
      description = not_json_description, recommendation = not_json_recommendation,
      cwe_id = None, confidence = ''low''\<rparr>"

text \<open>The finding made by the outer \<^verbatim>\<open>except Exception as e\<close>.\<close>

definition api_error_issue :: "string \<Rightarrow> py_exn \<Rightarrow> VulnerabilityIssue" where
  "api_error_issue fpath e =
     \<lparr>severity = ''info'', file_path = fpath, line_number = None, code_snippet = None,
      description = api_error_prefix @ exn_str e, recommendation = api_error_recommendation,
      cwe_id = None, confidence = ''high''\<rparr>"

text \<open>
  The localisation of a match: the first line the pattern matches, numbered from 1, with
  the lines from two before to two after it.
\<close>

fun first_match :: "(string \<Rightarrow> bool) \<Rightarrow> string list \<Rightarrow> nat \<Rightarrow> nat option" where
  "first_match search [] i = None"
| "first_match search (line # rest) i =
     (if search line then Some i else first_match search rest (Suc i))"

definition rule_issue ::
  "string \<Rightarrow> string \<Rightarrow> RulePattern \<Rightarrow> (string \<Rightarrow> bool) \<Rightarrow> VulnerabilityIssue" where
  "rule_issue fpath content rule search =
     (let lines = split_on (CHR 0x0A) content;
          located = first_match search lines 0
      in \<lparr>severity = or_default (rule_severity rule) ''medium'', file_path = fpath,
          line_number = map_option (\<lambda>i. int i + 1) located,
          code_snippet =
            map_option (\<lambda>i. join_with [CHR 0x0A]
                              (take (min (length lines) (i + 3) - (i - 2)) (drop (i - 2) lines)))
              located,
          description = or_default (rule_description rule) default_rule_description,
          recommendation = or_default (rule_recommendation rule) default_rule_recommendation,
          cwe_id = None, confidence = ''medium''\<rparr>)"

text \<open>
  The loop \<^verbatim>\<open>for pattern in relevant_patterns\<close>: a pattern that does not compile raises out
  of the loop.
\<close>

fun rule_issues ::
  "analyzer_env \<Rightarrow> string \<Rightarrow> string \<Rightarrow> RulePattern list \<Rightarrow> py_exn + VulnerabilityIssue list" where
  "rule_issues env fpath content [] = Inr []"
| "rule_issues env fpath content (rule # rest) =
     (case an_regex env (or_default (rule_pattern rule) []) of
        Inl e \<Rightarrow> Inl e
      | Inr search \<Rightarrow>
          (case rule_issues env fpath content rest of
             Inl e \<Rightarrow> Inl e
           | Inr others \<Rightarrow>
               Inr ((if search content then [rule_issue fpath content rule search] else []) @ others)))"

text \<open>The \<^verbatim>\<open>try\<close> block of \<^verbatim>\<open>_analyze_file_content\<close>: the findings, or the exception raised.\<close>

definition analysis_body ::
  "analyzer_env \<Rightarrow> rule_dict \<Rightarrow> string \<Rightarrow> string \<Rightarrow> py_exn + VulnerabilityIssue list" where
  "analysis_body env patterns fpath content =
     (let language = get_file_language fpath;
          relevant_patterns = get_patterns_for_language patterns language
      in case an_model env (an_prompt env language fpath content) of
           Inl e \<Rightarrow> Inl e
         | Inr analysis_result \<Rightarrow>
             (case an_decode env analysis_result of
                DecodeRaised e \<Rightarrow> Inl e
              | NotJson \<Rightarrow>
                  (case rule_issues env fpath content relevant_patterns of
                     Inl e \<Rightarrow> Inl e
                   | Inr others \<Rightarrow> Inr (not_json_issue fpath # others))
              | Decoded entries \<Rightarrow>
                  (case rule_issues env fpath content relevant_patterns of
                     Inl e \<Rightarrow> Inl e
                   | Inr others \<Rightarrow> Inr (map (issue_of_data fpath) entries @ others))))"

text \<open>
  \<^verbatim>\<open>CodeScanner._analyze_file_content\<close>: the outer handler turns every exception of the
  block into one finding.
\<close>

definition analyze_file_content ::
  "analyzer_env \<Rightarrow> rule_dict \<Rightarrow> string \<Rightarrow> string \<Rightarrow> VulnerabilityIssue list" where
  "analyze_file_content env patterns fpath content =
     (case analysis_body env patterns fpath content of
        Inl e \<Rightarrow> [api_error_issue fpath e]
      | Inr found \<Rightarrow> found)"

text \<open>An adapter whose every call times out.\<close>

definition timeout_env :: analyzer_env where
  "timeout_env =
     \<lparr>an_model = (\<lambda>prompt. Inl (Raised APITimeoutError ''Request timed out.'')),
      an_prompt = (\<lambda>language fpath content. content),
      an_decode = (\<lambda>answer. NotJson),
      an_regex = (\<lambda>p. Inr (\<lambda>text. False))\<rparr>"

section \<open>scanner.py: the path filter and the collection of files\<close>

text \<open>
  \<^verbatim>\<open>Path(path).parts\<close> for a POSIX path: the components between slashes, empty components
  and \<^verbatim>\<open>.\<close> dropped; an absolute path has the root as its first part (\<^verbatim>\<open>//\<close> when the path
  starts with exactly two slashes).
\<close>

definition path_anchor :: "string \<Rightarrow> string list" where
  "path_anchor p =
     (if take 2 p = ''//'' \<and> take 3 p \<noteq> ''///'' then [''//'']
      else if take 1 p = ''/'' then [''/'']
      else [])"

definition path_segments :: "string \<Rightarrow> string list" where
  "path_segments p = filter (\<lambda>s. s \<noteq> [] \<and> s \<noteq> ''.'') (split_on (CHR ''/'') p)"

definition path_parts :: "string \<Rightarrow> string list" where
  "path_parts p = path_anchor p @ path_segments p"

text \<open>\<^verbatim>\<open>os.path.join(a, b)\<close> for two components.\<close>

definition os_path_join :: "string \<Rightarrow> string \<Rightarrow> string" where
  "os_path_join a b =
     (if take 1 b = ''/'' then b
      else if a = [] \<or> last a = CHR ''/'' then a @ b
      else a @ ''/'' @ b)"

text \<open>\<^verbatim>\<open>path.endswith(ext)\<close>.\<close>

definition endswith :: "string \<Rightarrow> string \<Rightarrow> bool" where
  "endswith p ext = (length ext \<le> length p \<and> drop (length p - length ext) p = ext)"

text \<open>
  The scan configuration the scanner reads: \<^verbatim>\<open>excluded_dirs\<close>, \<^verbatim>\<open>excluded_files\<close> (the
  excluded extensions) and \<^verbatim>\<open>max_file_size_mb\<close>.
\<close>

record scan_config =
  excluded_dirs :: "string list"
  excluded_files :: "string list"
  max_file_size_mb :: real

text \<open>
  A directory tree as \<^verbatim>\<open>os.walk\<close> sees it.  A file has its name, its size in bytes
  (\<^verbatim>\<open>os.path.getsize\<close>) and the answer of \<^verbatim>\<open>is_binary_file\<close>; a directory has its name and its
  entries in the order of the listing.
\<close>

datatype fs_node = File string nat bool | Dir string "fs_node list"

text \<open>
  \<^verbatim>\<open>CodeScanner._should_exclude_path\<close> for the path of a regular file with the given size
  and binary answer: a part of the path is an excluded directory name, the path ends
  with an excluded extension, the file is larger than the cap, or it is binary.
\<close>

definition should_exclude_path :: "scan_config \<Rightarrow> string \<Rightarrow> nat \<Rightarrow> bool \<Rightarrow> bool" where
  "should_exclude_path cfg path size_bytes binary =
     (list_ex (\<lambda>excluded_dir. excluded_dir \<in> set (path_parts path)) (excluded_dirs cfg)
      \<or> list_ex (\<lambda>excluded_ext. endswith path excluded_ext) (excluded_files cfg)
      \<or> real size_bytes / (1024 * 1024) > max_file_size_mb cfg
      \<or> binary)"

text \<open>
  The inner loop \<^verbatim>\<open>for file in files\<close> of \<^verbatim>\<open>_collect_files\<close>, for the directory \<open>rootp\<close> with
  the given entries: the paths of its files that the filter lets through.
\<close>

fun files_to_scan_in :: "scan_config \<Rightarrow> string \<Rightarrow> fs_node list \<Rightarrow> string list" where
  "files_to_scan_in cfg rootp [] = []"
| "files_to_scan_in cfg rootp (File name size_bytes binary # entries) =
     (if should_exclude_path cfg (os_path_join rootp name) size_bytes binary then []
      else [os_path_join rootp name]) @ files_to_scan_in cfg rootp entries"
| "files_to_scan_in cfg rootp (Dir name children # entries) = files_to_scan_in cfg rootp entries"

text \<open>
  \<^verbatim>\<open>os.walk\<close>, top down, with \<^verbatim>\<open>dirs[:] = [d for d in dirs if d not in self.excluded_dirs]\<close>:
  \<open>walk_node\<close> descends into a directory of \<open>rootp\<close> unless its name is excluded, and
  \<open>walk_dirs\<close> goes through the entries of \<open>rootp\<close> in their order.
\<close>

fun walk_node :: "scan_config \<Rightarrow> string \<Rightarrow> fs_node \<Rightarrow> string list"
  and walk_dirs :: "scan_config \<Rightarrow> string \<Rightarrow> fs_node list \<Rightarrow> string list" where
  "walk_node cfg rootp (File name size_bytes binary) = []"
| "walk_node cfg rootp (Dir name children) =
     (if name \<in> set (excluded_dirs cfg) then []
      else files_to_scan_in cfg (os_path_join rootp name) children
           @ walk_dirs cfg (os_path_join rootp name) children)"
| "walk_dirs cfg rootp [] = []"
| "walk_dirs cfg rootp (entry # entries) = walk_node cfg rootp entry @ walk_dirs cfg rootp entries"

text \<open>\<^verbatim>\<open>CodeScanner._collect_files(path)\<close> for a directory \<open>path\<close> with the given entries.\<close>

definition collect_files :: "scan_config \<Rightarrow> string \<Rightarrow> fs_node list \<Rightarrow> string list" where
  "collect_files cfg path entries = files_to_scan_in cfg path entries @ walk_dirs cfg path entries"

text \<open>
  Every file of the tree with its path and the names of the directories above it, from
  the first level below \<open>rootp\<close> down to the directory that holds the file.
\<close>

fun located_node :: "string \<Rightarrow> string list \<Rightarrow> fs_node \<Rightarrow> (string \<times> string list) list"
  and located_in :: "string \<Rightarrow> string list \<Rightarrow> fs_node list \<Rightarrow> (string \<times> string list) list" where
  "located_node rootp ancestors (File name size_bytes binary) = [(os_path_join rootp name, ancestors)]"
| "located_node rootp ancestors (Dir name children) =
     located_in (os_path_join rootp name) (ancestors @ [name]) children"
| "located_in rootp ancestors [] = []"
| "located_in rootp ancestors (entry # entries) =
     located_node rootp ancestors entry @ located_in rootp ancestors entries"

text \<open>
  The names of a listing: not empty, without a slash, and not \<^verbatim>\<open>.\<close> (a listing never
  holds the entry of the directory itself).
\<close>

definition entry_name :: "string \<Rightarrow> bool" where
  "entry_name name = (name \<noteq> [] \<and> CHR ''/'' \<notin> set name \<and> name \<noteq> ''.'')"

fun entry_names_node :: "fs_node \<Rightarrow> bool"
  and entry_names :: "fs_node list \<Rightarrow> bool" where
  "entry_names_node (File name size_bytes binary) = entry_name name"
| "entry_names_node (Dir name children) = (entry_name name \<and> entry_names children)"
| "entry_names [] = True"
| "entry_names (entry # entries) = (entry_names_node entry \<and> entry_names entries)"

text \<open>A project tree with a dependency directory, and a configuration that excludes it.\<close>

definition example_config :: scan_config where
  "example_config =
     \<lparr>excluded_dirs = [''node_modules'', ''.git''], excluded_files = [''.min.js''],
      max_file_size_mb = 10\<rparr>"

definition example_tree :: "fs_node list" where
  "example_tree =
     [File ''main.py'' 120 False,
      Dir ''node_modules'' [Dir ''pkg'' [File ''index.js'' 80 False]],
      Dir ''src'' [File ''app.js'' 300 False, File ''app.min.js'' 90 False,
                   File ''logo.png'' 4000 True]]"

section \<open>scanner.py: the serialized form of a scan result\<close>

text \<open>
  Sequencing of steps that may raise: the first exception ends the computation.
\<close>

definition and_then :: "py_exn + 'a \<Rightarrow> ('a \<Rightarrow> py_exn + 'b) \<Rightarrow> py_exn + 'b" where
  "and_then m f = (case m of Inl e \<Rightarrow> Inl e | Inr x \<Rightarrow> f x)"

text \<open>
  An optional field as a value (\<^verbatim>\<open>None\<close> when absent), and the readings of a value at the
  type a field declares.  Python stores whatever value it is given; a value of another
  type than the declared one has no counterpart in the typed records and is answered
  with \<^verbatim>\<open>TypeError\<close> here.
\<close>

definition opt_val :: "('a \<Rightarrow> pyval) \<Rightarrow> 'a option \<Rightarrow> pyval" where
  "opt_val wrap v = (case v of None \<Rightarrow> PNone | Some x \<Rightarrow> wrap x)"

fun as_str :: "pyval \<Rightarrow> py_exn + string" where
  "as_str (PStr s) = Inr s"
| "as_str other = Inl (Raised TypeError ''not a str'')"

fun as_float :: "pyval \<Rightarrow> py_exn + real" where
  "as_float (PFloat x) = Inr x"
| "as_float other = Inl (Raised TypeError ''not a float'')"

fun as_opt_str :: "pyval \<Rightarrow> py_exn + string option" where
  "as_opt_str PNone = Inr None"
| "as_opt_str (PStr s) = Inr (Some s)"
| "as_opt_str other = Inl (Raised TypeError ''not an optional str'')"

fun as_opt_int :: "pyval \<Rightarrow> py_exn + int option" where
  "as_opt_int PNone = Inr None"
| "as_opt_int (PInt n) = Inr (Some n)"
| "as_opt_int other = Inl (Raised TypeError ''not an optional int'')"

fun as_dict :: "pyval \<Rightarrow> py_exn + (string, pyval) dict" where
  "as_dict (PDict d) = Inr d"
| "as_dict other = Inl (Raised TypeError ''not a mapping'')"

fun as_list :: "pyval \<Rightarrow> py_exn + pyval list" where
  "as_list (PList vs) = Inr vs"
| "as_list other = Inl (Raised TypeError ''not a list'')"

text \<open>\<^verbatim>\<open>vars(issue)\<close>: the fields of the dataclass, in the order of their declaration.\<close>

definition issue_vars :: "VulnerabilityIssue \<Rightarrow> (string, pyval) dict" where
  "issue_vars i =
     [(''severity'', PStr (severity i)),
      (''file_path'', PStr (file_path i)),
      (''line_number'', opt_val PInt (line_number i)),
      (''code_snippet'', opt_val PStr (code_snippet i)),
      (''description'', PStr (description i)),
      (''recommendation'', PStr (recommendation i)),
      (''cwe_id'', opt_val PStr (cwe_id i)),
      (''confidence'', PStr (confidence i))]"

text \<open>\<^verbatim>\<open>ScanResult.to_dict\<close>.\<close>

definition to_dict :: "ScanResult \<Rightarrow> (string, pyval) dict" where
  "to_dict r =
     [(''scan_id'', PStr (scan_id r)),
      (''scan_path'', PStr (scan_path r)),
      (''scan_type'', PStr (scan_type r)),
      (''timestamp'', PFloat (timestamp r)),
      (''issues'', PList (map (\<lambda>i. PDict (issue_vars i)) (issues r))),
      (''stats'', PDict (stats r)),
      (''project_info'', PDict (project_info r))]"

text \<open>
  \<^verbatim>\<open>VulnerabilityIssue(**issue_data)\<close>: a keyword that is no field, or a missing \<^verbatim>\<open>severity\<close>
  or \<^verbatim>\<open>file_path\<close>, raises \<^verbatim>\<open>TypeError\<close>; the other fields have their defaults.
\<close>

definition issue_fields :: "string list" where
  "issue_fields =
     [''severity'', ''file_path'', ''line_number'', ''code_snippet'', ''description'',
      ''recommendation'', ''cwe_id'', ''confidence'']"

definition issue_from_dict :: "(string, pyval) dict \<Rightarrow> py_exn + VulnerabilityIssue" where
  "issue_from_dict d =
     (if \<not> list_all (\<lambda>k. k \<in> set issue_fields) (map fst d)
      then Inl (Raised TypeError ''unexpected keyword argument'')
      else if map_of d ''severity'' = None \<or> map_of d ''file_path'' = None
      then Inl (Raised TypeError ''missing required positional argument'')
      else
        and_then (as_str (dict_get d ''severity'' PNone)) (\<lambda>sev.
        and_then (as_str (dict_get d ''file_path'' PNone)) (\<lambda>fp.
        and_then (as_opt_int (dict_get d ''line_number'' PNone)) (\<lambda>ln.
        and_then (as_opt_str (dict_get d ''code_snippet'' PNone)) (\<lambda>cs.
        and_then (as_str (dict_get d ''description'' (PStr []))) (\<lambda>de.
        and_then (as_str (dict_get d ''recommendation'' (PStr []))) (\<lambda>re.
        and_then (as_opt_str (dict_get d ''cwe_id'' PNone)) (\<lambda>cw.
        and_then (as_str (dict_get d ''confidence'' (PStr ''medium''))) (\<lambda>co.
          Inr \<lparr>severity = sev, file_path = fp, line_number = ln, code_snippet = cs,
               description = de, recommendation = re, cwe_id = cw, confidence = co\<rparr>)))))))))"

text \<open>The list comprehension over \<^verbatim>\<open>data.pop("issues", [])\<close>.\<close>

fun issues_from_list :: "pyval list \<Rightarrow> py_exn + VulnerabilityIssue list" where
  "issues_from_list [] = Inr []"
| "issues_from_list (v # vs) =
     and_then (as_dict v) (\<lambda>d.
     and_then (issue_from_dict d) (\<lambda>i.
     and_then (issues_from_list vs) (\<lambda>rest. Inr (i # rest))))"

text \<open>
  \<^verbatim>\<open>ScanResult.from_dict\<close>: the issues are rebuilt from \<^verbatim>\<open>data.pop("issues", [])\<close>, then the
  constructor is called with the other keys; it raises \<^verbatim>\<open>TypeError\<close> for a key that is no
  field and for a missing \<^verbatim>\<open>scan_id\<close>, \<^verbatim>\<open>scan_path\<close>, \<^verbatim>\<open>scan_type\<close> or \<^verbatim>\<open>timestamp\<close>.
\<close>

definition result_fields :: "string list" where
  "result_fields =
     [''scan_id'', ''scan_path'', ''scan_type'', ''timestamp'', ''issues'', ''stats'',
      ''project_info'']"

definition from_dict :: "(string, pyval) dict \<Rightarrow> py_exn + ScanResult" where
  "from_dict data =
     and_then (as_list (dict_get data ''issues'' (PList []))) (\<lambda>vs.
     and_then (issues_from_list vs) (\<lambda>found.
       if \<not> list_all (\<lambda>k. k \<in> set result_fields) (map fst data)
       then Inl (Raised TypeError ''unexpected keyword argument'')
       else if map_of data ''scan_id'' = None \<or> map_of data ''scan_path'' = None
               \<or> map_of data ''scan_type'' = None \<or> map_of data ''timestamp'' = None
       then Inl (Raised TypeError ''missing required positional argument'')
       else
         and_then (as_str (dict_get data ''scan_id'' PNone)) (\<lambda>sid.
         and_then (as_str (dict_get data ''scan_path'' PNone)) (\<lambda>sp.
         and_then (as_str (dict_get data ''scan_type'' PNone)) (\<lambda>st.
         and_then (as_float (dict_get data ''timestamp'' PNone)) (\<lambda>ts.
         and_then (as_dict (dict_get data ''stats'' (PDict []))) (\<lambda>sts.
         and_then (as_dict (dict_get data ''project_info'' (PDict []))) (\<lambda>info.
           Inr \<lparr>scan_id = sid, scan_path = sp, scan_type = st, timestamp = ts,
                issues = found, stats = sts, project_info = info\<rparr>))))))))"

text \<open>
  The JSON document.  \<^verbatim>\<open>json.dumps\<close> and \<^verbatim>\<open>json.loads\<close> belong to the standard library;
  a JSON text is taken here as the value it denotes, layout apart (\<^verbatim>\<open>indent=2\<close>,
  \<^verbatim>\<open>ensure_ascii=False\<close>).  The values of \<open>pyval\<close> are the ones JSON has: a dict has string
  keys, there is no tuple, and a float is a finite number, which \<^verbatim>\<open>json\<close> writes with
  \<^verbatim>\<open>repr\<close> and reads back exactly.
\<close>

datatype json_text = JsonText pyval

definition json_dumps :: "pyval \<Rightarrow> json_text" where
  "json_dumps v = JsonText v"

fun json_loads :: "json_text \<Rightarrow> pyval" where
  "json_loads (JsonText v) = v"

text \<open>\<^verbatim>\<open>ScanResult.to_json\<close> and \<^verbatim>\<open>ScanResult.from_json\<close>.\<close>

definition to_json :: "ScanResult \<Rightarrow> json_text" where
  "to_json r = json_dumps (PDict (to_dict r))"

definition from_json :: "json_text \<Rightarrow> py_exn + ScanResult" where
  "from_json json_str = and_then (as_dict (json_loads json_str)) from_dict"

section \<open>semgrep_converter.py: the import of third-party rules\<close>

text \<open>
  A loaded YAML document is a value of \<open>pyval\<close>.  The converter inspects the values it
  reads with \<^verbatim>\<open>isinstance\<close>, with truth tests and by iterating over them.
\<close>

fun py_truthy :: "pyval \<Rightarrow> bool" where
  "py_truthy PNone = False"
| "py_truthy (PBool b) = b"
| "py_truthy (PInt n) = (n \<noteq> 0)"
| "py_truthy (PFloat x) = (x \<noteq> 0)"
| "py_truthy (PStr s) = (s \<noteq> [])"
| "py_truthy (PList vs) = (vs \<noteq> [])"
| "py_truthy (PDict d) = (d \<noteq> [])"

fun is_str :: "pyval \<Rightarrow> bool" where
  "is_str (PStr s) = True"
| "is_str other = False"

fun is_dict :: "pyval \<Rightarrow> bool" where
  "is_dict (PDict d) = True"
| "is_dict other = False"

text \<open>The text of a value that is a string.\<close>

fun str_value :: "pyval \<Rightarrow> string" where
  "str_value (PStr s) = s"
| "str_value other = []"

fun is_list :: "pyval \<Rightarrow> bool" where
  "is_list (PList vs) = True"
| "is_list other = False"

text \<open>\<^verbatim>\<open>isinstance(v, dict) and key in v\<close>, and \<^verbatim>\<open>v[key]\<close> for such a value.\<close>

fun dict_has :: "pyval \<Rightarrow> string \<Rightarrow> bool" where
  "dict_has (PDict d) key = (map_of d key \<noteq> None)"
| "dict_has other key = False"

fun dict_item :: "pyval \<Rightarrow> string \<Rightarrow> pyval" where
  "dict_item (PDict d) key = dict_get d key PNone"
| "dict_item other key = PNone"

fun list_items :: "pyval \<Rightarrow> pyval list" where
  "list_items (PList vs) = vs"
| "list_items other = []"

text \<open>
  \<^verbatim>\<open>for x in v\<close>: the items of a list, the characters of a string, the keys of a dict;
  \<^verbatim>\<open>TypeError\<close> for a value that is not iterable.
\<close>

fun py_iter :: "pyval \<Rightarrow> py_exn + pyval list" where
  "py_iter (PList vs) = Inr vs"
| "py_iter (PStr s) = Inr (map (\<lambda>c. PStr [c]) s)"
| "py_iter (PDict d) = Inr (map (\<lambda>p. PStr (fst p)) d)"
| "py_iter other = Inl (Raised TypeError ''object is not iterable'')"

text \<open>
  \<^verbatim>\<open>str(v)\<close>, as an f-string also formats a value: a string is itself, an integer its
  decimal digits; \<open>repr\<close> stands for the built-in text of a float, a list or a dict.
\<close>

definition int_digits :: "int \<Rightarrow> string" where
  "int_digits n = (if n < 0 then ''-'' @ nat_digits (nat (- n)) else nat_digits (nat n))"

fun py_str :: "(pyval \<Rightarrow> string) \<Rightarrow> pyval \<Rightarrow> string" where
  "py_str repr (PStr s) = s"
| "py_str repr (PInt n) = int_digits n"
| "py_str repr PNone = ''None''"
| "py_str repr (PBool b) = (if b then ''True'' else ''False'')"
| "py_str repr other = repr other"

text \<open>
  \<^verbatim>\<open>value[:50]\<close>: a string or a list can be sliced, another value raises \<^verbatim>\<open>TypeError\<close>.  A
  string is cut by bytes here, by characters in Python: the same for ASCII text.
\<close>

fun slice50 :: "pyval \<Rightarrow> py_exn + pyval" where
  "slice50 (PStr s) = Inr (PStr (take 50 s))"
| "slice50 (PList vs) = Inr (PList (take 50 vs))"
| "slice50 other = Inl (Raised TypeError ''object is not subscriptable'')"

text \<open>\<^verbatim>\<open>value.lower()\<close>: only a string has the method.\<close>

fun py_lower :: "pyval \<Rightarrow> py_exn + string" where
  "py_lower (PStr s) = Inr (str_lower s)"
| "py_lower other = Inl (Raised (OtherException ''AttributeError'') ''object has no attribute lower'')"

text \<open>
  The strings gathered from \<^verbatim>\<open>pattern-either\<close>: an entry that is a string, or a dict whose
  \<^verbatim>\<open>pattern\<close> is a string.
\<close>

fun either_strings :: "pyval list \<Rightarrow> string list" where
  "either_strings [] = []"
| "either_strings (PStr s # ps) = s # either_strings ps"
| "either_strings (p # ps) =
     (if dict_has p ''pattern'' \<and> is_str (dict_item p ''pattern'')
      then str_value (dict_item p ''pattern'') # either_strings ps
      else either_strings ps)"

text \<open>\<^verbatim>\<open>p.replace('\n', ' ')\<close>.\<close>

definition newline_to_space :: "string \<Rightarrow> string" where
  "newline_to_space s = map (\<lambda>c. if c = CHR 0x0A then CHR '' '' else c) s"

text \<open>
  The chain \<^verbatim>\<open>if 'pattern' in rule ... elif 'pattern-either' in rule ... elif ...\<close>: the
  value of \<^verbatim>\<open>pattern\<close> after it (\<^verbatim>\<open>None\<close> when no branch assigns), or the exception raised.
\<close>

definition primary_pattern :: "(string, pyval) dict \<Rightarrow> py_exn + pyval" where
  "primary_pattern rule =
     (if map_of rule ''pattern'' \<noteq> None then
        (let v = dict_get rule ''pattern'' PNone in
         if is_str v then Inr v
         else if dict_has v ''pattern'' then Inr (dict_item v ''pattern'')
         else Inr PNone)
      else if map_of rule ''pattern-either'' \<noteq> None then
        (let patterns = dict_get rule ''pattern-either'' (PList []) in
         if py_truthy patterns then
           and_then (py_iter patterns) (\<lambda>ps.
             let string_patterns = either_strings ps in
             if string_patterns \<noteq> []
             then Inr (PStr (join_with ''|'' (map newline_to_space string_patterns)))
             else Inr PNone)
         else Inr PNone)
      else if map_of rule ''pattern-regex'' \<noteq> None then
        (let v = dict_get rule ''pattern-regex'' PNone in if is_str v then Inr v else Inr PNone)
      else if map_of rule ''pattern-inside'' \<noteq> None then
        (let v = dict_get rule ''pattern-inside'' PNone in if is_str v then Inr v else Inr PNone)
      else if map_of rule ''pattern-not'' \<noteq> None then
        (let v = dict_get rule ''pattern-not'' PNone in
         if is_str v then Inr (PStr (''(?!'' @ str_value v @ '')'')) else Inr PNone)
      else Inr PNone)"

text \<open>
  The search through \<^verbatim>\<open>rule['patterns']\<close>, one level of nesting included.  The first
  argument is the current value of \<^verbatim>\<open>pattern\<close>.  An entry with a string \<^verbatim>\<open>pattern\<close> ends the
  search; a nested list ends it when \<^verbatim>\<open>pattern\<close> is true afterwards.
\<close>

fun nested_pattern :: "pyval \<Rightarrow> pyval list \<Rightarrow> pyval" where
  "nested_pattern pattern [] = pattern"
| "nested_pattern pattern (entry # entries) =
     (if dict_has entry ''pattern'' \<and> is_str (dict_item entry ''pattern'')
      then dict_item entry ''pattern''
      else nested_pattern pattern entries)"

fun patterns_pattern :: "pyval \<Rightarrow> pyval list \<Rightarrow> pyval" where
  "patterns_pattern pattern [] = pattern"
| "patterns_pattern pattern (entry # entries) =
     (if dict_has entry ''pattern'' \<and> is_str (dict_item entry ''pattern'')
      then dict_item entry ''pattern''
      else if dict_has entry ''patterns'' \<and> is_list (dict_item entry ''patterns'')
      then (let found = nested_pattern pattern (list_items (dict_item entry ''patterns''))
            in if py_truthy found then found else patterns_pattern found entries)
      else patterns_pattern pattern entries)"

text \<open>The fallbacks, each tried while \<^verbatim>\<open>pattern\<close> is false.\<close>

definition from_patterns :: "(string, pyval) dict \<Rightarrow> pyval \<Rightarrow> pyval" where
  "from_patterns rule pattern =
     (if \<not> py_truthy pattern \<and> map_of rule ''patterns'' \<noteq> None
         \<and> is_list (dict_get rule ''patterns'' PNone)
         \<and> py_truthy (dict_get rule ''patterns'' PNone)
      then patterns_pattern pattern (list_items (dict_get rule ''patterns'' PNone))
      else pattern)"

definition from_rules :: "(string, pyval) dict \<Rightarrow> pyval \<Rightarrow> pyval" where
  "from_rules rule pattern =
     (if \<not> py_truthy pattern \<and> map_of rule ''rules'' \<noteq> None
         \<and> is_list (dict_get rule ''rules'' PNone)
         \<and> py_truthy (dict_get rule ''rules'' PNone)
      then nested_pattern pattern (list_items (dict_get rule ''rules'' PNone))
      else pattern)"

definition from_metadata ::
  "(pyval \<Rightarrow> string) \<Rightarrow> (string, pyval) dict \<Rightarrow> pyval \<Rightarrow> pyval \<Rightarrow> pyval" where
  "from_metadata repr rule rule_ident pattern =
     (if py_truthy pattern then pattern
      else
        let metadata = dict_get rule ''metadata'' PNone in
        if dict_has metadata ''cwe''
        then PStr (''# CWE-'' @ py_str repr (dict_item metadata ''cwe''))
        else if dict_has metadata ''owasp''
        then PStr (''# OWASP-'' @ py_str repr (dict_item metadata ''owasp''))
        else PStr (''# '' @ py_str repr rule_ident))"

text \<open>
  \<^verbatim>\<open>re.sub(r'[$][A-Z_]+', '', pattern)\<close>: a dollar sign followed by capital letters or
  underscores is removed with them.
\<close>

definition is_meta_char :: "char \<Rightarrow> bool" where
  "is_meta_char c = ((65 \<le> (of_char c :: nat) \<and> (of_char c :: nat) \<le> 90) \<or> c = CHR ''_'')"

function remove_metavars :: "string \<Rightarrow> string" where
  "remove_metavars [] = []"
| "remove_metavars (c # cs) =
     (if c = CHR ''$'' \<and> cs \<noteq> [] \<and> is_meta_char (hd cs)
      then remove_metavars (dropWhile is_meta_char cs)
      else c # remove_metavars cs)"
  by pat_completeness auto
termination
  by (relation "measure length") (auto simp: length_dropWhile_le less_Suc_eq_le)

text \<open>\<^verbatim>\<open>pattern.replace('...', '.*?')\<close>.\<close>

fun replace_ellipsis :: "string \<Rightarrow> string" where
  "replace_ellipsis (a # b # c # rest) =
     (if a = CHR ''.'' \<and> b = CHR ''.'' \<and> c = CHR ''.''
      then ''.*?'' @ replace_ellipsis rest
      else a # replace_ellipsis (b # c # rest))"
| "replace_ellipsis short = short"

text \<open>
  \<^verbatim>\<open>re.escape\<close> (Python 3.7 and later): a backslash goes before each of the characters
  \<^verbatim>\<open>()[]{}?*+-|^$\.&~#\<close>, the space and the control characters tab, line feed, vertical tab,
  form feed and carriage return.
\<close>

definition re_special :: "char list" where
  "re_special =
     ''()[]{}?*+-|^$.&~# '' @ [CHR 0x5C, CHR 0x09, CHR 0x0A, CHR 0x0B, CHR 0x0C, CHR 0x0D]"

definition re_escape :: "string \<Rightarrow> string" where
  "re_escape s = concat (map (\<lambda>c. if c \<in> set re_special then [CHR 0x5C, c] else [c]) s)"

text \<open>The dict \<^verbatim>\<open>converted_rule\<close> the converter builds.\<close>

record converted_rule =
  conv_id :: pyval
  conv_name :: pyval
  conv_pattern :: string
  conv_description :: pyval
  conv_severity :: string
  conv_languages :: pyval
  conv_source :: string
  conv_metadata :: "pyval option"

text \<open>
  \<^verbatim>\<open>convert_semgrep_rule\<close>: the converted rule, or \<^verbatim>\<open>None\<close> when a statement raises (the
  severity is no string, the message cannot be sliced, \<^verbatim>\<open>pattern-either\<close> cannot be
  iterated).
\<close>

definition convert_body ::
  "(pyval \<Rightarrow> string) \<Rightarrow> (string, pyval) dict \<Rightarrow> py_exn + converted_rule" where
  "convert_body repr rule =
     (let rule_ident = dict_get rule ''id'' (PStr []);
          languages = dict_get rule ''languages'' (PList [])
      in and_then (py_lower (dict_get rule ''severity'' (PStr ''medium''))) (\<lambda>sev.
         let message = dict_get rule ''message'' (PStr []) in
         and_then (if py_truthy (dict_get rule ''name'' (PStr []))
                   then Inr (dict_get rule ''name'' (PStr []))
                   else slice50 message) (\<lambda>rule_name.
         and_then (primary_pattern rule) (\<lambda>p0.
           let p1 = from_patterns rule p0;
               p2 = from_rules rule p1;
               p3 = from_metadata repr rule rule_ident p2;
               p4 = py_str repr p3;
               p5 = replace_ellipsis (remove_metavars p4);
               p6 = re_escape p5
           in Inr \<lparr>conv_id = rule_ident, conv_name = rule_name, conv_pattern = p6,
                   conv_description = message, conv_severity = sev,
                   conv_languages = languages, conv_source = ''semgrep'',
                   conv_metadata =
                     (if is_dict (dict_get rule ''metadata'' PNone)
                      then Some (dict_get rule ''metadata'' PNone) else None)\<rparr>))))"


definition convert_semgrep_rule ::
  "(pyval \<Rightarrow> string) \<Rightarrow> (string, pyval) dict \<Rightarrow> converted_rule option" where
  "convert_semgrep_rule repr rule =
     (case convert_body repr rule of Inl e \<Rightarrow> None | Inr converted \<Rightarrow> Some converted)"

text \<open>The result of a conversion: language to list of converted rules.\<close>

type_synonym converted_dict = "(string, converted_rule list) dict"

text \<open>\<^verbatim>\<open>result[lang_key].append(converted)\<close>, the list created when the key is new.\<close>

definition dict_append :: "('k, 'v list) dict \<Rightarrow> 'k \<Rightarrow> 'v \<Rightarrow> ('k, 'v list) dict" where
  "dict_append d k v = dict_set d k (dict_get d k [] @ [v])"

text \<open>
  The rules a document holds: the list under \<^verbatim>\<open>rules\<close>; a single rule object with \<^verbatim>\<open>id\<close> and
  \<^verbatim>\<open>pattern\<close>; for another dict, the rules of each sub-document; a list as it is.
\<close>

fun sub_document_rules :: "(string, pyval) dict \<Rightarrow> pyval list" where
  "sub_document_rules [] = []"
| "sub_document_rules ((key, v) # rest) =
     (if dict_has v ''rules'' \<and> is_list (dict_item v ''rules'')
      then list_items (dict_item v ''rules'')
      else if dict_has v ''pattern'' then [v]
      else []) @ sub_document_rules rest"

fun document_rules :: "pyval \<Rightarrow> pyval list" where
  "document_rules (PDict d) =
     (if map_of d ''rules'' \<noteq> None \<and> is_list (dict_get d ''rules'' PNone)
      then list_items (dict_get d ''rules'' PNone)
      else if map_of d ''id'' \<noteq> None \<and> map_of d ''pattern'' \<noteq> None then [PDict d]
      else sub_document_rules d)"
| "document_rules (PList vs) = vs"
| "document_rules other = []"

text \<open>
  The language keys of a converted rule:
  \<^verbatim>\<open>[str(lang).lower() if lang else 'common' for lang in languages]\<close>, with \<^verbatim>\<open>['common']\<close>
  for languages that are false; the iteration may raise.
\<close>

definition language_keys :: "(pyval \<Rightarrow> string) \<Rightarrow> pyval \<Rightarrow> py_exn + string list" where
  "language_keys repr languages =
     and_then (py_iter (if py_truthy languages then languages else PList [PStr ''common'']))
       (\<lambda>langs. Inr (map (\<lambda>lang. if py_truthy lang then str_lower (py_str repr lang)
                                  else ''common'') langs))"

text \<open>
  The loop \<^verbatim>\<open>for rule in rules\<close> of \<^verbatim>\<open>convert_semgrep_rules_file\<close>.  An exception leaves the
  loop; the handler of the function returns what \<^verbatim>\<open>result\<close> holds by then.
\<close>

fun convert_rules :: "(pyval \<Rightarrow> string) \<Rightarrow> converted_dict \<Rightarrow> pyval list \<Rightarrow> converted_dict" where
  "convert_rules repr result [] = result"
| "convert_rules repr result (PDict rule # rules) =
     (case convert_semgrep_rule repr rule of
        None \<Rightarrow> convert_rules repr result rules
      | Some converted \<Rightarrow>
          (case language_keys repr (conv_languages converted) of
             Inl e \<Rightarrow> result
           | Inr keys \<Rightarrow>
               convert_rules repr
                 (fold (\<lambda>lang res. dict_append res (str_lower lang) converted) keys result)
                 rules))"
| "convert_rules repr result (other # rules) = convert_rules repr result rules"

text \<open>
  \<^verbatim>\<open>convert_semgrep_rules_file\<close>, from the outcome of \<^verbatim>\<open>yaml.safe_load\<close> on the file: the
  document, \<^verbatim>\<open>None\<close> for an empty file, or the exception of a file that does not load.
\<close>

definition convert_semgrep_rules_file ::
  "(pyval \<Rightarrow> string) \<Rightarrow> py_exn + pyval \<Rightarrow> converted_dict" where
  "convert_semgrep_rules_file repr loaded =
     (case loaded of
        Inl e \<Rightarrow> []
      | Inr content \<Rightarrow> convert_rules repr [] (document_rules content))"

text \<open>
  \<^verbatim>\<open>convert_semgrep_rules_dir\<close>, from the YAML files the two globs find, in their order:
  the result starts with nine empty buckets, and the rules of each file are appended to
  the bucket of their language.
\<close>

definition initial_buckets :: converted_dict where
  "initial_buckets =
     [(''common'', []), (''python'', []), (''javascript'', []), (''java'', []), (''go'', []),
      (''ruby'', []), (''php'', []), (''c'', []), (''cpp'', [])]"

definition extend_buckets :: "converted_dict \<Rightarrow> converted_dict \<Rightarrow> converted_dict" where
  "extend_buckets result file_rules =
     fold (\<lambda>entry res. dict_set res (fst entry) (dict_get res (fst entry) [] @ snd entry))
       file_rules result"

definition convert_semgrep_rules_dir ::
  "(pyval \<Rightarrow> string) \<Rightarrow> (py_exn + pyval) list \<Rightarrow> converted_dict" where
  "convert_semgrep_rules_dir repr yaml_files =
     fold (\<lambda>loaded result. extend_buckets result (convert_semgrep_rules_file repr loaded))
       yaml_files initial_buckets"

section \<open>The pattern engine on escaped text\<close>

text \<open>
  The scanner uses a stored pattern as \<^verbatim>\<open>re.compile(pattern, re.IGNORECASE).search(content)\<close>.
  The fragment of the syntax of Python's \<^verbatim>\<open>re\<close> that is needed here: a pattern is a list of
  alternatives separated by \<^verbatim>\<open>|\<close>; an alternative is a sequence of characters that stand
  for themselves, a special character standing for itself when a backslash precedes it.
  \<open>re_branches\<close> reads such a pattern; it answers \<open>None\<close> for a pattern with another
  construct (an unescaped character of \<open>re_meta\<close>, a backslash before a letter or digit or
  at the end).
\<close>

definition re_meta :: "char list" where
  "re_meta = ''.^$*+?{}[]|()'' @ [CHR 0x5C]"

fun push_char :: "char \<Rightarrow> string list option \<Rightarrow> string list option" where
  "push_char c None = None"
| "push_char c (Some []) = None"
| "push_char c (Some (branch # branches)) = Some ((c # branch) # branches)"

fun re_branches :: "string \<Rightarrow> string list option" where
  "re_branches [] = Some [[]]"
| "re_branches (c # rest) =
     (if c = CHR 0x5C then
        (case rest of
           [] \<Rightarrow> None
         | d # rest' \<Rightarrow> if d \<in> set re_special then push_char d (re_branches rest') else None)
      else if c = CHR ''|'' then map_option (\<lambda>branches. [] # branches) (re_branches rest)
      else if c \<in> set re_meta then None
      else push_char c (re_branches rest))"

text \<open>A text starts with a word, letter case apart; a text contains a word.\<close>

fun starts_with_ci :: "string \<Rightarrow> string \<Rightarrow> bool" where
  "starts_with_ci text [] = True"
| "starts_with_ci [] (w # ws) = False"
| "starts_with_ci (t # ts) (w # ws) = (char_lower t = char_lower w \<and> starts_with_ci ts ws)"

fun contains_ci :: "string \<Rightarrow> string \<Rightarrow> bool" where
  "contains_ci [] word = (word = [])"
| "contains_ci (t # ts) word = (starts_with_ci (t # ts) word \<or> contains_ci ts word)"

text \<open>\<^verbatim>\<open>re.compile(pattern, re.IGNORECASE).search(content) is not None\<close>, on the fragment.\<close>

definition re_search_ci :: "string \<Rightarrow> string \<Rightarrow> bool option" where
  "re_search_ci pattern content =
     map_option (\<lambda>branches. list_ex (contains_ci content) branches) (re_branches pattern)"

text \<open>
  A rules file with one rule, whose only pattern key is \<^verbatim>\<open>pattern-either: ["foo", "bar"]\<close>.
\<close>

definition either_rule :: "(string, pyval) dict" where
  "either_rule =
     [(''id'', PStr ''either-rule''),
      (''languages'', PList [PStr ''python'']),
      (''severity'', PStr ''WARNING''),
      (''message'', PStr ''foo or bar''),
      (''pattern-either'', PList [PStr ''foo'', PStr ''bar''])]"

definition either_document :: pyval where
  "either_document = PDict [(''rules'', PList [PDict either_rule])]"

definition either_converted :: converted_rule where
  "either_converted =
     \<lparr>conv_id = PStr ''either-rule'', conv_name = PStr ''foo or bar'',
      conv_pattern = ''foo'' @ [CHR 0x5C] @ ''|bar'', conv_description = PStr ''foo or bar'',
      conv_severity = ''warning'', conv_languages = PList [PStr ''python''],
      conv_source = ''semgrep'', conv_metadata = None\<rparr>"

section \<open>Facts about dictionaries\<close>

lemma map_of_dict_set: "map_of (dict_set d k v) = (map_of d)(k \<mapsto> v)"
  by (induction d k v rule: dict_set.induct) auto

lemma dict_get_dict_set:
  "dict_get (dict_set d k v) k' dflt = (if k' = k then v else dict_get d k' dflt)"
  by (simp add: dict_get_def map_of_dict_set)

lemma sum_dict_set:
  "sum_list (map snd (dict_set d k (dict_get d k 0 + n))) = sum_list (map snd d) + (n::nat)"
proof (induction d)
  case Nil
  show ?case by (simp add: dict_get_def)
next
  case (Cons p d)
  obtain k' v' where p: "p = (k', v')" by (cases p)
  show ?case
  proof (cases "k' = k")
    case True
    with p show ?thesis by (simp add: dict_get_def)
  next
    case False
    have "dict_get (p # d) k 0 = dict_get d k 0"
      using False p by (simp add: dict_get_def)
    with Cons False p show ?thesis by simp
  qed
qed

lemma dict_get_set_same: "dict_get (dict_set d k v) k dflt = v"
  by (simp add: dict_get_dict_set)

lemma map_of_dict_del: "map_of (dict_del d k) = (map_of d)(k := None)"
  by (induction d) (auto simp: dict_del_def)

lemma dict_get_dict_del:
  "dict_get (dict_del d k) k' dflt = (if k' = k then dflt else dict_get d k' dflt)"
  by (simp add: dict_get_def map_of_dict_del)

lemma dict_get_absent: "map_of d k = None \<Longrightarrow> dict_get d k dflt = dflt"
  by (simp add: dict_get_def)

lemma dict_set_absent: "map_of d k = None \<Longrightarrow> dict_set d k v = d @ [(k, v)]"
  by (induction d) (auto split: if_splits)

lemma dict_set_present: "map_of d k = Some v \<Longrightarrow> dict_set d k v = d"
  by (induction d) (auto split: if_splits)

lemma dict_del_absent: "map_of d k = None \<Longrightarrow> dict_del d k = d"
  by (induction d) (auto simp: dict_del_def split: if_splits)

lemma dict_set_snoc: "map_of d k = None \<Longrightarrow> dict_set (d @ [(k, v)]) k v' = d @ [(k, v')]"
  by (induction d) (auto split: if_splits)

lemma dict_get_snoc: "map_of d k = None \<Longrightarrow> dict_get (d @ [(k, v)]) k dflt = v"
  by (simp add: dict_get_def map_add_def)

lemma dict_del_snoc: "map_of d k = None \<Longrightarrow> dict_del (d @ [(k, v)]) k = d"
  using dict_del_absent [of d k] by (simp add: dict_del_def)

section \<open>Severity counts\<close>

lemma count_severities_sum:
  "sum_list (map snd (count_severities acc xs)) = sum_list (map snd acc) + length xs"
proof (induction xs arbitrary: acc)
  case Nil
  show ?case by simp
next
  case (Cons x xs)
  have "sum_list (map snd (dict_set acc (severity x) (dict_get acc (severity x) 0 + 1)))
          = sum_list (map snd acc) + 1"
    by (rule sum_dict_set)
  with Cons.IH [of "dict_set acc (severity x) (dict_get acc (severity x) 0 + 1)"]
  show ?case by simp
qed

lemma count_severities_get:
  "dict_get (count_severities acc xs) s 0 =
     dict_get acc s 0 + length (filter (\<lambda>i. severity i = s) xs)"
proof (induction xs arbitrary: acc)
  case Nil
  show ?case by simp
next
  case (Cons x xs)
  show ?case
    using Cons.IH [of "dict_set acc (severity x) (dict_get acc (severity x) 0 + 1)"]
    by (simp add: dict_get_dict_set)
qed

lemma severity_init_zero: "dict_get severity_init s 0 = 0"
  by (simp add: severity_init_def dict_get_def)

text \<open>
  C10.  For every scan result the counts of \<open>issues_by_severity\<close> add up to
  \<open>total_issues\<close>, which is the length of the findings list; and for every severity
  string \<open>s\<close>, one of the five named levels or not, the count stored under \<open>s\<close> (0 when
  the key is absent) is the number of findings that carry \<open>s\<close>: none is dropped.
\<close>

theorem issues_by_severity_total:
  "sum_list (map snd (issues_by_severity r)) = total_issues r
   \<and> total_issues r = length (issues r)
   \<and> dict_get (issues_by_severity r) s 0 = length (filter (\<lambda>i. severity i = s) (issues r))"
  by (simp add: issues_by_severity_def total_issues_def count_severities_sum
      count_severities_get severity_init_zero, simp add: severity_init_def)

section \<open>The merge of rule batches\<close>

lemma ids_fold_Some:
  "map_of (fold (\<lambda>p d. dict_set d (rule_id (snd p)) (fst p)) (enumerate n xs) acc) k = Some i
   \<Longrightarrow> map_of acc k = Some i \<or> (n \<le> i \<and> i < n + length xs \<and> rule_id (xs ! (i - n)) = k)"
proof (induction xs arbitrary: n acc)
  case Nil
  then show ?case by simp
next
  case (Cons x xs)
  from Cons.prems have
    "map_of (fold (\<lambda>p d. dict_set d (rule_id (snd p)) (fst p)) (enumerate (Suc n) xs)
       (dict_set acc (rule_id x) n)) k = Some i"
    by simp
  from Cons.IH [OF this]
  consider "map_of (dict_set acc (rule_id x) n) k = Some i"
    | "Suc n \<le> i" "i < Suc n + length xs" "rule_id (xs ! (i - Suc n)) = k"
    by blast
  then show ?case
  proof cases
    case 1
    then show ?thesis by (auto simp: map_of_dict_set split: if_splits)
  next
    case 2
    then have "i - n = Suc (i - Suc n)" by arith
    then have "(x # xs) ! (i - n) = xs ! (i - Suc n)"
      by simp
    with 2 show ?thesis by auto
  qed
qed

lemma ids_fold_None:
  "k \<notin> rule_id ` set xs \<Longrightarrow>
   map_of (fold (\<lambda>p d. dict_set d (rule_id (snd p)) (fst p)) (enumerate n xs) acc) k = map_of acc k"
  by (induction xs arbitrary: n acc) (auto simp: map_of_dict_set)

lemma ids_fold_dom:
  "k \<in> rule_id ` set xs \<Longrightarrow>
   \<exists>i. map_of (fold (\<lambda>p d. dict_set d (rule_id (snd p)) (fst p)) (enumerate n xs) acc) k = Some i"
proof (induction xs arbitrary: n acc)
  case Nil
  then show ?case by simp
next
  case (Cons x xs)
  show ?case
  proof (cases "k \<in> rule_id ` set xs")
    case True
    from Cons.IH [OF this] show ?thesis by simp
  next
    case False
    with Cons.prems have "rule_id x = k" by auto
    with False show ?thesis by (simp add: ids_fold_None map_of_dict_set)
  qed
qed

text \<open>The index read \<^verbatim>\<open>self.patterns[lang][index]\<close> is in range and finds the id.\<close>

lemma existing_ids_in_range:
  "map_of (existing_ids bucket) k = Some i \<Longrightarrow> i < length bucket \<and> rule_id (bucket ! i) = k"
  unfolding existing_ids_def by (drule ids_fold_Some) simp

lemma existing_ids_None:
  "k \<notin> rule_id ` set bucket \<Longrightarrow> map_of (existing_ids bucket) k = None"
  unfolding existing_ids_def by (simp add: ids_fold_None)

lemma existing_ids_Some:
  "k \<in> rule_id ` set bucket \<Longrightarrow> \<exists>i. map_of (existing_ids bucket) k = Some i"
  unfolding existing_ids_def by (rule ids_fold_dom)

lemma keeps_ids_refl: "keeps_ids b b"
  by (simp add: keeps_ids_def)

lemma keeps_ids_nth:
  "keeps_ids b0 b \<Longrightarrow> i < length b0 \<Longrightarrow> i < length b \<and> rule_id (b ! i) = rule_id (b0 ! i)"
proof -
  assume k: "keeps_ids b0 b" and i: "i < length b0"
  then have le: "length b0 \<le> length b" by (simp add: keeps_ids_def)
  from k have "map rule_id (take (length b0) b) ! i = map rule_id b0 ! i"
    by (simp add: keeps_ids_def)
  with i le show ?thesis by simp
qed

lemma merge_rule_keeps:
  assumes "keeps_ids b0 (fst st)"
  shows "keeps_ids b0 (fst (merge_rule lang (existing_ids b0) st r))"
proof -
  let ?r = "assign_id lang (fst st) (snd st) r"
  show ?thesis
  proof (cases "map_of (existing_ids b0) (rule_id ?r)")
    case None
    with assms show ?thesis
      by (simp add: merge_rule_def Let_def keeps_ids_def)
  next
    case (Some i)
    from existing_ids_in_range [OF Some] have i: "i < length b0" "rule_id (b0 ! i) = rule_id ?r"
      by simp_all
    from keeps_ids_nth [OF assms i(1)] have j: "i < length (fst st)" "rule_id (fst st ! i) = rule_id (b0 ! i)"
      by simp_all
    have "map rule_id ((fst st)[i := ?r]) = map rule_id (fst st)"
      using i j by (simp add: map_update list_update_same_conv)
    then have "map rule_id (take (length b0) ((fst st)[i := ?r])) = map rule_id (take (length b0) (fst st))"
      by (simp add: take_map [symmetric])
    with assms Some show ?thesis
      by (simp add: merge_rule_def Let_def keeps_ids_def)
  qed
qed

lemma merge_bucket_snoc:
  "merge_bucket lang b0 t (rs @ [r]) = merge_rule lang (existing_ids b0) (merge_bucket lang b0 t rs) r"
  by (simp add: merge_bucket_def)

lemma merge_bucket_keeps: "keeps_ids b0 (fst (merge_bucket lang b0 t rs))"
proof (induction rs rule: rev_induct)
  case Nil
  show ?case by (simp add: merge_bucket_def keeps_ids_refl)
next
  case (snoc r rs)
  then show ?case by (simp add: merge_bucket_snoc merge_rule_keeps)
qed

lemma merge_lang_bucket:
  "dict_get (fst (merge_lang (Q, t) (lang, rs))) lang [] = fst (merge_bucket lang (dict_get Q lang []) t rs)"
  by (simp add: merge_lang_def Let_def dict_get_dict_del dict_get_set_same dict_get_absent)

lemma merge_lang_count:
  "snd (merge_lang (Q, t) (lang, rs)) = snd (merge_bucket lang (dict_get Q lang []) t rs)"
  by (simp add: merge_lang_def Let_def dict_get_set_same dict_get_absent)

lemma merge_rules_snoc:
  "merge_rules P (pre @ [e]) = merge_lang (merge_rules P pre) e"
  by (simp add: merge_rules_def)

lemma merge_rule_None:
  "map_of ids (rule_id (assign_id lang (fst st) (snd st) r)) = None \<Longrightarrow>
   merge_rule lang ids st r = (fst st @ [assign_id lang (fst st) (snd st) r], snd st + 1)"
  by (simp add: merge_rule_def Let_def)

lemma merge_rule_Some:
  "map_of ids (rule_id (assign_id lang (fst st) (snd st) r)) = Some i \<Longrightarrow>
   merge_rule lang ids st r =
     (if truthy (rule_pattern (assign_id lang (fst st) (snd st) r))
         \<and> rule_pattern (assign_id lang (fst st) (snd st) r) \<noteq> rule_pattern (fst st ! i)
      then ((fst st)[i := assign_id lang (fst st) (snd st) r], snd st)
      else (fst st, snd st))"
  by (simp add: merge_rule_def Let_def)

lemma merge_rule_noop:
  assumes dist: "distinct (map rule_id b0)"
    and id: "rule_id r \<noteq> []"
    and s: "s \<in> set b0" "rule_id s = rule_id r" "rule_pattern s = rule_pattern r"
  shows "merge_rule lang (existing_ids b0) (b0, t) r = (b0, t)"
proof -
  have a: "assign_id lang b0 t r = r" using id by (simp add: assign_id_def)
  have "rule_id s \<in> rule_id ` set b0" using s(1) by (rule imageI)
  then have "rule_id r \<in> rule_id ` set b0" by (simp add: s(2))
  from existing_ids_Some [OF this] obtain i where i: "map_of (existing_ids b0) (rule_id r) = Some i"
    by blast
  from existing_ids_in_range [OF i] have ir: "i < length b0" "rule_id (b0 ! i) = rule_id r"
    by simp_all
  from s(1) obtain j where j: "j < length b0" "b0 ! j = s" by (auto simp: in_set_conv_nth)
  have "map rule_id b0 ! i = map rule_id b0 ! j" using ir j s(2) by simp
  with nth_eq_iff_index_eq [OF dist, of i j] ir(1) j(1) have "i = j" by simp
  with j s(3) have "rule_pattern (b0 ! i) = rule_pattern r" by simp
  with i a show ?thesis
    using merge_rule_Some [of "existing_ids b0" lang "(b0, t)" r i] by simp
qed

lemma merge_bucket_noop:
  assumes "distinct (map rule_id b0)"
    and "list_all (\<lambda>r. rule_id r \<noteq> []) rs"
    and "list_all (\<lambda>r. list_ex (\<lambda>s. rule_id s = rule_id r \<and> rule_pattern s = rule_pattern r) b0) rs"
  shows "merge_bucket lang b0 t rs = (b0, t)"
  using assms(2,3)
proof (induction rs rule: rev_induct)
  case Nil
  show ?case by (simp add: merge_bucket_def)
next
  case (snoc r rs)
  then have st: "merge_bucket lang b0 t rs = (b0, t)" by simp
  from snoc.prems obtain s where "s \<in> set b0" "rule_id s = rule_id r" "rule_pattern s = rule_pattern r"
    by (auto simp: list_ex_iff)
  moreover from snoc.prems have "rule_id r \<noteq> []" by simp
  ultimately show ?case
    using merge_rule_noop [OF assms(1)] by (simp add: merge_bucket_snoc st)
qed

lemma merge_lang_noop:
  assumes inv: "store_invariant P"
    and ids: "list_all (\<lambda>r. rule_id r \<noteq> []) (snd e)"
    and cont: "list_all (\<lambda>r. list_ex (\<lambda>s. rule_id s = rule_id r \<and> rule_pattern s = rule_pattern r)
                 (dict_get P (fst e) [])) (snd e)"
  shows "merge_lang (P, t) e = (P, t)"
proof (cases "map_of P (fst e)")
  case None
  then have b0: "dict_get P (fst e) [] = []" by (simp add: dict_get_def)
  with cont have "snd e = []" by (cases "snd e") simp_all
  with None show ?thesis
    by (simp add: merge_lang_def Let_def merge_bucket_def dict_set_absent dict_get_snoc
        dict_set_snoc dict_del_snoc)
next
  case (Some b0)
  then have "(fst e, b0) \<in> set P" by (rule map_of_SomeD)
  with inv have ne: "b0 \<noteq> []" and dist: "distinct (map rule_id b0)"
    by (auto simp: store_invariant_def list_all_iff)
  from Some have get: "dict_get P (fst e) [] = b0" by (simp add: dict_get_def)
  from merge_bucket_noop [OF dist ids] cont get
  have "merge_bucket (fst e) b0 t (snd e) = (b0, t)" by simp
  with Some ne get show ?thesis
    by (simp add: merge_lang_def Let_def dict_set_present)
qed

text \<open>
  C1.  How \<^verbatim>\<open>_merge_rules\<close> processes one incoming rule.  Take any store, any batch
  \<open>pre\<close> already merged, a language \<open>lang\<close> whose incoming rules \<open>rs\<close> have been
  processed, and the next incoming rule \<open>r\<close>; \<open>r'\<close> is \<open>r\<close> with its id (the given one, or
  the synthesized one when it is empty).  \<open>b0\<close> is the bucket of \<open>lang\<close> as the store held
  it when the merge reached the language, \<open>b\<close> the bucket just before \<open>r\<close> and \<open>b'\<close> just
  after.  If the id is already in \<open>b0\<close>, the returned count does not move and the bucket
  changes in one way only: the stored rule with that id is replaced by \<open>r'\<close>, exactly when
  the pattern of \<open>r'\<close> is non-empty and differs from the stored pattern string.  If the id
  is not in \<open>b0\<close>, \<open>r'\<close> is appended and the returned count grows by exactly 1.  The same
  read on the bucket \<open>b\<close> as it is when \<open>r\<close> comes: an id that is not in \<open>b\<close> is appended
  and counted once; and whenever a stored rule of \<open>b\<close> is replaced, the incoming pattern is
  non-empty and differs from the stored one, and the count does not move.
\<close>

theorem merge_rules_per_rule:
  fixes patterns :: rule_dict and pre :: rule_dict and lang :: string
    and rs :: "RulePattern list" and r :: RulePattern
  defines "b0 \<equiv> dict_get (fst (merge_rules patterns pre)) lang []"
  defines "S \<equiv> merge_rules patterns (pre @ [(lang, rs)])"
  defines "S' \<equiv> merge_rules patterns (pre @ [(lang, rs @ [r])])"
  defines "b \<equiv> dict_get (fst S) lang []"
  defines "b' \<equiv> dict_get (fst S') lang []"
  defines "r' \<equiv> assign_id lang b (snd S) r"
  shows "(rule_id r' \<in> rule_id ` set b0 \<longrightarrow>
            snd S' = snd S \<and>
            (\<exists>i. i < length b0 \<and> i < length b \<and> rule_id (b ! i) = rule_id r' \<and>
               b' = (if truthy (rule_pattern r') \<and> rule_pattern r' \<noteq> rule_pattern (b ! i)
                     then b[i := r'] else b)))
       \<and> (rule_id r' \<notin> rule_id ` set b0 \<longrightarrow> b' = b @ [r'] \<and> snd S' = snd S + 1)
       \<and> (rule_id r' \<notin> rule_id ` set b \<longrightarrow> b' = b @ [r'] \<and> snd S' = snd S + 1)
       \<and> ((\<exists>i. i < length b \<and> b' ! i \<noteq> b ! i) \<longrightarrow>
            truthy (rule_pattern r') \<and> snd S' = snd S \<and>
            (\<exists>i. i < length b \<and> rule_id (b ! i) = rule_id r' \<and>
               rule_pattern r' \<noteq> rule_pattern (b ! i) \<and> b' = b[i := r']))"
proof -
  obtain Q t where Q: "merge_rules patterns pre = (Q, t)" by (cases "merge_rules patterns pre")
  let ?st = "merge_bucket lang b0 t rs"
  have b0: "b0 = dict_get Q lang []" by (simp add: b0_def Q)
  have b: "b = fst ?st"
    by (simp add: b_def S_def merge_rules_snoc Q merge_lang_bucket b0)
  have t: "snd S = snd ?st"
    by (simp add: S_def merge_rules_snoc Q merge_lang_count b0)
  have st': "merge_bucket lang b0 t (rs @ [r]) = merge_rule lang (existing_ids b0) ?st r"
    by (rule merge_bucket_snoc)
  have b': "b' = fst (merge_rule lang (existing_ids b0) ?st r)"
    by (simp add: b'_def S'_def merge_rules_snoc Q merge_lang_bucket b0 [symmetric] st')
  have t': "snd S' = snd (merge_rule lang (existing_ids b0) ?st r)"
    by (simp add: S'_def merge_rules_snoc Q merge_lang_count b0 [symmetric] st')
  have r': "assign_id lang (fst ?st) (snd ?st) r = r'"
    by (simp add: r'_def b t)
  have keeps: "keeps_ids b0 b" unfolding b by (rule merge_bucket_keeps)
  show ?thesis
  proof (cases "map_of (existing_ids b0) (rule_id r')")
    case None
    then have new: "rule_id r' \<notin> rule_id ` set b0"
      using existing_ids_Some [of "rule_id r'" b0] by auto
    from None have "merge_rule lang (existing_ids b0) ?st r = (b @ [r'], snd S + 1)"
      using merge_rule_None [of "existing_ids b0" lang ?st r] by (simp add: r' b t)
    then have app: "b' = b @ [r']" "snd S' = snd S + 1"
      by (simp_all add: b' t')
    then have same: "\<not> (\<exists>i. i < length b \<and> b' ! i \<noteq> b ! i)"
      by (simp add: nth_append)
    from new app same show ?thesis by blast
  next
    case (Some i)
    from existing_ids_in_range [OF Some] have i: "i < length b0" "rule_id (b0 ! i) = rule_id r'"
      by simp_all
    from keeps_ids_nth [OF keeps i(1)] i have j: "i < length b" "rule_id (b ! i) = rule_id r'"
      by simp_all
    from i have mem0: "rule_id r' \<in> rule_id ` set b0"
      by (metis imageI nth_mem)
    from j have mem: "rule_id r' \<in> rule_id ` set b"
      by (metis imageI nth_mem)
    from Some have step: "merge_rule lang (existing_ids b0) ?st r =
        (if truthy (rule_pattern r') \<and> rule_pattern r' \<noteq> rule_pattern (b ! i)
         then (b[i := r'], snd S) else (b, snd S))"
      using merge_rule_Some [of "existing_ids b0" lang ?st r i] by (simp add: r' b t)
    have cnt: "snd S' = snd S"
      by (simp add: t' step)
    have upd: "b' = (if truthy (rule_pattern r') \<and> rule_pattern r' \<noteq> rule_pattern (b ! i)
             then b[i := r'] else b)"
      by (simp add: b' step)
    have first: "\<exists>i. i < length b0 \<and> i < length b \<and> rule_id (b ! i) = rule_id r' \<and>
               b' = (if truthy (rule_pattern r') \<and> rule_pattern r' \<noteq> rule_pattern (b ! i)
                     then b[i := r'] else b)"
      using i(1) j upd by blast
    have last: "(\<exists>k. k < length b \<and> b' ! k \<noteq> b ! k) \<longrightarrow>
            truthy (rule_pattern r') \<and>
            (\<exists>i. i < length b \<and> rule_id (b ! i) = rule_id r' \<and>
               rule_pattern r' \<noteq> rule_pattern (b ! i) \<and> b' = b[i := r'])"
    proof (cases "truthy (rule_pattern r') \<and> rule_pattern r' \<noteq> rule_pattern (b ! i)")
      case True
      with upd have "b' = b[i := r']" by simp
      with True j show ?thesis by blast
    next
      case False
      with upd have "b' = b" by simp
      then show ?thesis by simp
    qed
    from mem0 mem cnt first last show ?thesis by blast
  qed
qed

theorem merge_rules_per_rule_witness:
  "rule_id (example_rule ''py-2'' ''exec'') \<notin> rule_id ` set (dict_get example_store ''python'' [])
   \<and> dict_get (fst (merge_rules example_store [(''python'', [example_rule ''py-2'' ''exec''])])) ''python'' []
       = dict_get example_store ''python'' [] @ [example_rule ''py-2'' ''exec'']
   \<and> snd (merge_rules example_store [(''python'', [example_rule ''py-2'' ''exec''])]) = 1
   \<and> rule_id (example_rule ''py-1'' ''exec'') \<in> rule_id ` set (dict_get example_store ''python'' [])
   \<and> snd (merge_rules example_store [(''python'', [example_rule ''py-1'' ''exec''])]) = 0"
proof -
  have e0: "merge_rules example_store [] = (example_store, 0)"
    by (simp add: merge_rules_def)
  have e1: "merge_rules example_store [(''python'', [])] = (example_store, 0)"
    by code_simp
  have new: "rule_id (example_rule ''py-2'' ''exec'') \<notin> rule_id ` set (dict_get example_store ''python'' [])"
    by code_simp
  have old: "rule_id (example_rule ''py-1'' ''exec'') \<in> rule_id ` set (dict_get example_store ''python'' [])"
    by code_simp
  have a: "assign_id ''python'' (dict_get example_store ''python'' []) 0 (example_rule i p)
      = example_rule i p" if "i \<noteq> []" for i p
    using that by (simp add: assign_id_def example_rule_def)
  from merge_rules_per_rule [where patterns = example_store and pre = "[]" and lang = "''python''"
      and rs = "[]" and r = "example_rule ''py-2'' ''exec''"]
  have appended:
    "dict_get (fst (merge_rules example_store [(''python'', [example_rule ''py-2'' ''exec''])])) ''python'' []
       = dict_get example_store ''python'' [] @ [example_rule ''py-2'' ''exec'']
     \<and> snd (merge_rules example_store [(''python'', [example_rule ''py-2'' ''exec''])]) = 1"
    using e0 e1 new a by simp
  from merge_rules_per_rule [where patterns = example_store and pre = "[]" and lang = "''python''"
      and rs = "[]" and r = "example_rule ''py-1'' ''exec''"]
  have "snd (merge_rules example_store [(''python'', [example_rule ''py-1'' ''exec''])]) = 0"
    using e0 e1 old a by simp
  with appended new old show ?thesis by simp
qed

text \<open>
  C3 (the code at the failing input).  Two incoming rules with the same new id, for
  the same bucket: \<^verbatim>\<open>existing_ids\<close> is not updated by the first append, so the second
  rule is appended as well; the bucket ends with the id twice and the returned count is 2.
\<close>

theorem merge_rules_duplicate_ids:
  "merge_rules [] [(''python'', [example_rule ''dup'' ''eval'', example_rule ''dup'' ''exec''])]
     = ([(''python'', [example_rule ''dup'' ''eval'', example_rule ''dup'' ''exec''])], 2)
   \<and> map rule_id (dict_get (fst (merge_rules []
         [(''python'', [example_rule ''dup'' ''eval'', example_rule ''dup'' ''exec''])])) ''python'' [])
     = [''dup'', ''dup'']"
  by code_simp

text \<open>
  C5, as stated, fails: a store that satisfies its invariant and holds a rule with the
  empty id, merged with a batch that is the store itself.  The store contains every rule
  of the batch under the same id and pattern, yet the incoming rule gets the synthesized
  id \<^verbatim>\<open>python-0002\<close>, is appended, and the merge returns 1.
\<close>

theorem merge_rules_contained_counterexample:
  "store_invariant unnamed_store \<and> contains_batch unnamed_store unnamed_store
   \<and> merge_rules unnamed_store unnamed_store =
       ([(''python'', [example_rule [] ''eval'', example_rule ''python-0002'' ''eval''])], 1)"
  by code_simp

text \<open>
  C5, amended.  Merging a batch whose rules all carry a non-empty id into a store that
  satisfies its invariant and already contains every rule of the batch (same id, same
  pattern string, bucket by bucket) is a no-op: the merge returns 0 and the store, with
  every bucket and every stored pattern string, is the one it was.
\<close>

theorem merge_rules_contained_noop:
  "store_invariant patterns \<Longrightarrow> ids_given batch \<Longrightarrow> contains_batch patterns batch \<Longrightarrow>
   merge_rules patterns batch = (patterns, 0)"
proof (induction batch rule: rev_induct)
  case Nil
  show ?case by (simp add: merge_rules_def)
next
  case (snoc e batch)
  then have "merge_rules patterns batch = (patterns, 0)"
    by (simp add: ids_given_def contains_batch_def)
  moreover from snoc.prems have "merge_lang (patterns, 0) e = (patterns, 0)"
    by (intro merge_lang_noop) (simp_all add: ids_given_def contains_batch_def)
  ultimately show ?case by (simp add: merge_rules_snoc)
qed

theorem merge_rules_contained_noop_witness:
  "store_invariant example_store \<and> ids_given example_store \<and> contains_batch example_store example_store
   \<and> merge_rules example_store example_store = (example_store, 0)"
proof -
  have h1: "store_invariant example_store" by code_simp
  have h2: "ids_given example_store" by code_simp
  have h3: "contains_batch example_store example_store" by code_simp
  from merge_rules_contained_noop [OF h1 h2 h3] h1 h2 h3 show ?thesis by simp
qed

section \<open>Progress of a directory scan\<close>

lemma length_as_completed: "length (as_completed sched k pending) = length pending"
proof (induction sched k pending rule: as_completed.induct)
  case (1 sched k pending)
  show ?case
  proof (cases "pending = []")
    case True
    then show ?thesis by (simp add: as_completed.simps)
  next
    case False
    then have i: "sched k mod length pending < length pending" by simp
    from 1 [OF False refl] i False show ?thesis
      by (subst as_completed.simps) (simp add: Let_def)
  qed
qed

lemma percents_append: "percents (xs @ ys) = percents xs @ percents ys"
  by (simp add: percents_def)

lemma percents_Cons_Progress: "percents (Progress m p # xs) = p # percents xs"
  by (simp add: percents_def)

lemma percents_Nil: "percents [] = []"
  by (simp add: percents_def)

lemma percents_Submit: "percents (map Submit fs) = []"
  by (induction fs) (simp_all add: percents_def)

lemma scan_loop_percents:
  "sorted (percents (snd (scan_loop env t fs c acc)))
   \<and> list_all (\<lambda>p. 10 + (70 * (c + 1)) div t \<le> p \<and> p \<le> 10 + (70 * (c + length fs)) div t)
        (percents (snd (scan_loop env t fs c acc)))"
proof (induction fs arbitrary: c acc)
  case Nil
  show ?case by (simp add: percents_Nil)
next
  case (Cons f fs)
  let ?rest = "percents (snd (scan_loop env t fs (c + 1) (absorb_result env f acc)))"
  from Cons.IH [of "c + 1" "absorb_result env f acc"]
  have s: "sorted ?rest"
    and b: "list_all (\<lambda>p. 10 + (70 * (c + 1 + 1)) div t \<le> p \<and> p \<le> 10 + (70 * (c + 1 + length fs)) div t) ?rest"
    by simp_all
  have m1: "(70 * (c + 1)) div t \<le> (70 * (c + 1 + 1)) div t"
    by (rule div_le_mono) simp
  have m2: "(70 * (c + 1)) div t \<le> (70 * (c + length (f # fs))) div t"
    by (rule div_le_mono) simp
  from b m1 have lo: "list_all (\<lambda>p. 10 + (70 * (c + 1)) div t \<le> p) ?rest"
    by (auto simp: list_all_iff)
  from b have hi: "list_all (\<lambda>p. p \<le> 10 + (70 * (c + length (f # fs))) div t) ?rest"
    by (auto simp: list_all_iff)
  from s lo hi m2 show ?case
    by (auto simp: Let_def percents_Cons_Progress list_all_iff)
qed

lemma scan_loop_sorted_range:
  assumes "0 < length files"
  shows "sorted (5 # 10 # percents (snd (scan_loop env (length files) (as_completed sched 0 files) 0 acc)) @ [85, 90, q])
         = (90 \<le> q)"
proof -
  let ?ps = "percents (snd (scan_loop env (length files) (as_completed sched 0 files) 0 acc))"
  from scan_loop_percents [of env "length files" "as_completed sched 0 files" 0 acc]
  have s: "sorted ?ps"
    and b: "list_all (\<lambda>p. 10 \<le> p \<and> p \<le> 10 + (70 * length files) div length files) ?ps"
    by (auto simp: length_as_completed list_all_iff)
  from assms have "(70 * length files) div length files = 70" by simp
  with b have "list_all (\<lambda>p. 10 \<le> p \<and> p \<le> 80) ?ps" by simp
  with s show ?thesis
    by (auto simp: sorted_append list_all_iff)
qed

lemma scan_directory_percents_files:
  assumes "env_isdir env" "env_collect env = Inr files" "files \<noteq> []" "0 < max_workers"
  shows "\<exists>q. 90 \<le> q \<and>
           percents (snd (scan_directory env dir_path max_workers)) =
             5 # 10 # percents (snd (scan_loop env (length files)
                          (as_completed (env_schedule env) 0 files) 0
                          \<lparr>acc_issues = [], acc_total_lines = 0, acc_languages = [],
                           acc_file_counts = []\<rparr>)) @ [85, 90, q]"
  using assms
  by (simp add: scan_directory_def Let_def percents_append percents_Cons_Progress percents_Nil
      percents_Submit split: sum.split)

text \<open>
  C9.  Within one call of \<^verbatim>\<open>scan_directory\<close> the percentages handed to the progress
  callback, in the order of the calls, never decrease: for every directory, every order
  of completion and every outcome (files found, no file found, a failure stored under
  \<^verbatim>\<open>"error"\<close>, or the \<^verbatim>\<open>ValueError\<close> for a path that is no directory).
\<close>

theorem scan_directory_progress_monotone:
  "sorted (percents (snd (scan_directory env dir_path max_workers)))"
proof (cases "env_isdir env")
  case False
  then show ?thesis by (simp add: scan_directory_def percents_Nil)
next
  case True
  show ?thesis
  proof (cases "env_collect env")
    case (Inl e)
    with True show ?thesis
      by (simp add: scan_directory_def Let_def percents_Cons_Progress percents_Nil)
  next
    case (Inr files)
    show ?thesis
    proof (cases "files = []")
      case True
      with \<open>env_isdir env\<close> Inr show ?thesis
        by (simp add: scan_directory_def Let_def percents_Cons_Progress percents_Nil)
    next
      case False
      then have pos: "0 < length files" by simp
      show ?thesis
      proof (cases "0 < max_workers")
        case False
        with \<open>env_isdir env\<close> Inr \<open>files \<noteq> []\<close> show ?thesis
          by (simp add: scan_directory_def Let_def percents_Cons_Progress percents_Nil)
      next
        case True
        from scan_directory_percents_files [OF \<open>env_isdir env\<close> Inr False True, of dir_path]
      obtain q where "90 \<le> q"
        and "percents (snd (scan_directory env dir_path max_workers)) =
             5 # 10 # percents (snd (scan_loop env (length files)
                          (as_completed (env_schedule env) 0 files) 0
                          \<lparr>acc_issues = [], acc_total_lines = 0, acc_languages = [],
                           acc_file_counts = []\<rparr>)) @ [85, 90, q]"
        by blast
      then show ?thesis
        by (simp only: scan_loop_sorted_range [OF pos])
      qed
    qed
  qed
qed

section \<open>Interruption of a directory scan\<close>

lemma interruption_mono:
  "isInterruptionRequested flag n \<Longrightarrow> n \<le> m \<Longrightarrow> isInterruptionRequested flag m"
  by (auto simp: isInterruptionRequested_def split: option.splits)

lemma relay_counter: "n \<le> snd (relay flag n es)"
proof (induction flag n es rule: relay.induct)
  case (1 flag n)
  show ?case by simp
next
  case (2 flag n fpath es)
  then show ?case by (simp add: Let_def)
next
  case (3 flag n msg percent es)
  then show ?case by (simp add: Let_def)
qed

lemma relay_silent:
  "isInterruptionRequested flag n \<Longrightarrow> list_all (\<lambda>x. \<not> is_signal x) (fst (relay flag n es))"
proof (induction flag n es rule: relay.induct)
  case (1 flag n)
  show ?case by simp
next
  case (2 flag n fpath es)
  then show ?case by (simp add: Let_def)
next
  case (3 flag n msg percent es)
  from "3.prems" have "isInterruptionRequested flag (Suc n)"
    by (rule interruption_mono) simp
  with 3 show ?case by (simp add: Let_def)
qed

lemma relay_quiet: "quiet_after_set (fst (relay flag n es))"
proof (induction flag n es rule: relay.induct)
  case (1 flag n)
  show ?case by simp
next
  case (2 flag n fpath es)
  then show ?case by (simp add: Let_def)
next
  case (3 flag n msg percent es)
  show ?case
  proof (cases "isInterruptionRequested flag n")
    case True
    then have "isInterruptionRequested flag (Suc n)" by (rule interruption_mono) simp
    from relay_silent [OF this] True 3 show ?thesis by (simp add: Let_def)
  next
    case False
    with 3 show ?thesis by (simp add: Let_def)
  qed
qed

lemma relay_seen_set:
  "Poll True \<in> set (fst (relay flag n es)) \<Longrightarrow> isInterruptionRequested flag (snd (relay flag n es))"
proof (induction flag n es rule: relay.induct)
  case (1 flag n)
  then show ?case by simp
next
  case (2 flag n fpath es)
  then show ?case by (simp add: Let_def)
next
  case (3 flag n msg percent es)
  show ?case
  proof (cases "isInterruptionRequested flag n")
    case True
    have "n \<le> snd (relay flag (Suc n) es)"
      using relay_counter [of "Suc n" flag es] by simp
    with True have "isInterruptionRequested flag (snd (relay flag (Suc n) es))"
      by (rule interruption_mono)
    then show ?thesis by (simp add: Let_def)
  next
    case False
    with "3.prems" have "Poll True \<in> set (fst (relay flag (Suc n) es))"
      by (simp add: Let_def)
    from "3.IH" [OF this] show ?thesis by (simp add: Let_def)
  qed
qed

lemma quiet_after_set_append:
  "quiet_after_set (xs @ ys) =
     (quiet_after_set xs \<and> quiet_after_set ys
      \<and> (Poll True \<in> set xs \<longrightarrow> list_all (\<lambda>x. \<not> is_signal x) ys))"
  by (induction xs) auto

lemma run_handler_quiet: "quiet_after_set (run_handler flag n e)"
  by (simp add: run_handler_def)

lemma run_handler_silent:
  "isInterruptionRequested flag n \<Longrightarrow> list_all (\<lambda>x. \<not> is_signal x) (run_handler flag n e)"
  by (simp add: run_handler_def)

lemma run_tail_quiet: "quiet_after_set (run_tail flag n outcome)"
  by (cases outcome) (simp_all add: run_tail_def run_handler_def)

lemma run_tail_silent:
  "isInterruptionRequested flag n \<Longrightarrow> list_all (\<lambda>x. \<not> is_signal x) (run_tail flag n outcome)"
  by (cases outcome) (simp_all add: run_tail_def run_handler_def)

lemma run_directory_scan_unfold:
  "run_directory_scan None env flag path =
     Poll (isInterruptionRequested flag 0) #
     (if isInterruptionRequested flag 0 then []
      else EmitProgress (MsgPreparing path) 0 #
           fst (relay flag 1 (snd (scan_directory env path 5))) @
           run_tail flag (snd (relay flag 1 (snd (scan_directory env path 5))))
             (fst (scan_directory env path 5)))"
  by (simp add: run_directory_scan_def Let_def)

lemma run_directory_scan_quiet: "quiet_after_set (run_directory_scan init env flag path)"
proof (cases init)
  case (Some e)
  then show ?thesis by (simp add: run_directory_scan_def run_handler_quiet)
next
  case None
  let ?sc = "scan_directory env path 5"
  let ?r = "relay flag 1 (snd ?sc)"
  have "quiet_after_set (fst ?r @ run_tail flag (snd ?r) (fst ?sc))"
    unfolding quiet_after_set_append
    using relay_quiet [of flag 1 "snd ?sc"] run_tail_quiet [of flag "snd ?r" "fst ?sc"]
      relay_seen_set [of flag 1 "snd ?sc"] run_tail_silent [of flag "snd ?r" "fst ?sc"]
    by blast
  with None show ?thesis
    by (simp add: run_directory_scan_unfold)
qed

lemma relay_dispatch: "filter is_dispatch (fst (relay flag n es)) = filter is_dispatch (fst (relay None n es))"
proof (induction flag n es rule: relay.induct)
  case (1 flag n)
  show ?case by simp
next
  case (2 flag n fpath es)
  then show ?case by (simp add: Let_def)
next
  case (3 flag n msg percent es)
  then show ?case by (simp add: Let_def isInterruptionRequested_def)
qed

lemma run_tail_dispatch: "filter is_dispatch (run_tail flag n outcome) = []"
  by (cases outcome) (simp_all add: run_tail_def run_handler_def)

lemma set_as_completed: "set (as_completed sched k pending) = set pending"
proof (induction sched k pending rule: as_completed.induct)
  case (1 sched k pending)
  show ?case
  proof (cases "pending = []")
    case True
    then show ?thesis by (simp add: as_completed.simps)
  next
    case False
    let ?i = "sched k mod length pending"
    from False have i: "?i < length pending" by simp
    have "set (pending ! ?i # take ?i pending @ drop (Suc ?i) pending)
          = set (take ?i pending @ pending ! ?i # drop (Suc ?i) pending)"
      by auto
    also have "\<dots> = set pending"
      using id_take_nth_drop [OF i] by simp
    finally have perm: "set (pending ! ?i # take ?i pending @ drop (Suc ?i) pending) = set pending" .
    from 1 [OF False refl] have
      "set (as_completed sched (Suc k) (take ?i pending @ drop (Suc ?i) pending))
        = set (take ?i pending @ drop (Suc ?i) pending)" .
    with perm False show ?thesis
      by (subst as_completed.simps) (simp add: Let_def)
  qed
qed

lemma submitted_append: "submitted (xs @ ys) = submitted xs @ submitted ys"
  by (induction xs rule: submitted.induct) simp_all

lemma submitted_Submit: "submitted (map Submit fs) = fs"
  by (induction fs) simp_all

lemma submitted_scan_loop: "submitted (snd (scan_loop env t fs c acc)) = []"
  by (induction fs arbitrary: c acc) (simp_all add: Let_def)

lemma scanning_reports_append:
  "scanning_reports (xs @ ys) = scanning_reports xs @ scanning_reports ys"
  by (induction xs rule: scanning_reports.induct) simp_all

lemma scanning_reports_Submit: "scanning_reports (map Submit fs) = []"
  by (induction fs) simp_all

lemma scanning_reports_scan_loop:
  "scanning_reports (snd (scan_loop env t fs c acc)) = map basename fs"
  by (induction fs arbitrary: c acc) (simp_all add: Let_def)

lemma percents_scan_loop: "length (percents (snd (scan_loop env t fs c acc))) = length fs"
  by (induction fs arbitrary: c acc) (simp_all add: Let_def percents_Nil percents_Cons_Progress)

lemma scan_directory_submitted:
  assumes "env_isdir env" "env_collect env = Inr files" "files \<noteq> []" "0 < max_workers"
  shows "submitted (snd (scan_directory env path max_workers)) = files"
  using assms
  by (simp add: scan_directory_def Let_def submitted_append submitted_Submit submitted_scan_loop
      split: sum.split)

lemma scan_directory_reports:
  assumes "env_isdir env" "env_collect env = Inr files" "files \<noteq> []" "0 < max_workers"
  shows "scanning_reports (snd (scan_directory env path max_workers)) =
           map basename (as_completed (env_schedule env) 0 files)"
  using assms
  by (simp add: scan_directory_def Let_def scanning_reports_append scanning_reports_Submit
      scanning_reports_scan_loop split: sum.split)

lemma scan_directory_calls:
  assumes "env_isdir env" "env_collect env = Inr files" "files \<noteq> []" "0 < max_workers"
  shows "length (percents (snd (scan_directory env path max_workers))) = length files + 5"
  using assms
  by (simp add: scan_directory_def Let_def percents_append percents_Cons_Progress percents_Nil
      percents_Submit percents_scan_loop length_as_completed split: sum.split)

lemma scan_directory_returns:
  assumes "env_isdir env"
  shows "\<exists>result. fst (scan_directory env path max_workers) = Inr result"
  using assms
  by (simp add: scan_directory_def Let_def split: sum.split)

lemma relay_submitted:
  "filter is_dispatch (fst (relay flag n es)) = map Dispatch (submitted es)"
  by (induction flag n es rule: relay.induct) (simp_all add: Let_def)

lemma relay_polls: "length (filter is_poll (fst (relay flag n es))) = length (percents es)"
  by (induction flag n es rule: relay.induct)
    (simp_all add: Let_def percents_Nil percents_Cons_Progress percents_def)

lemma relay_reads: "snd (relay flag n es) = n + length (percents es)"
  by (induction flag n es rule: relay.induct)
    (simp_all add: Let_def percents_Nil percents_Cons_Progress percents_def)

lemma run_tail_polls:
  "length (filter is_poll (run_tail flag n (Inr result))) =
     (if isInterruptionRequested flag n then 1 else 2)"
  by (simp add: run_tail_def)

text \<open>
  C8, amended.  In a directory scan run by the scan thread, no signal (progress,
  completion or error) is emitted after a read of the interruption flag has seen it set:
  the thread reads the flag before each progress signal it relays and before the
  completion signal.  The scanner does not read the flag before it dispatches work, nor
  anywhere else: unless the thread's very first read already sees the flag set, the
  files handed to the worker pool are those of a run that is never interrupted, and when
  the collection finds files they are all the collected files, in their order.  The scan
  then runs to its end whatever the flag does: the scanner takes the results in the order
  of completion, a rearrangement of the collected files, and reports every completed
  file to the callback.  The thread reads the flag once at the start, once for each call
  of the callback (five stages and one call per file), once when the scan has returned,
  and once more before the completion signal if the flag is still not set.
\<close>

theorem scan_thread_interruption:
  "quiet_after_set (run_directory_scan init env flag path)
   \<and> filter is_dispatch (run_directory_scan None env flag path) =
       (if isInterruptionRequested flag 0 then []
        else filter is_dispatch (run_directory_scan None env None path))
   \<and> (env_isdir env \<and> env_collect env = Inr files \<and> files \<noteq> [] \<longrightarrow>
        filter is_dispatch (run_directory_scan None env flag path) =
          (if isInterruptionRequested flag 0 then [] else map Dispatch files)
        \<and> submitted (snd (scan_directory env path 5)) = files
        \<and> scanning_reports (snd (scan_directory env path 5)) =
            map basename (as_completed (env_schedule env) 0 files)
        \<and> length (as_completed (env_schedule env) 0 files) = length files
        \<and> set (as_completed (env_schedule env) 0 files) = set files
        \<and> length (filter is_poll (run_directory_scan None env flag path)) =
            (if isInterruptionRequested flag 0 then 1
             else length files + 7
                  + (if isInterruptionRequested flag (length files + 6) then 0 else 1)))"
proof -
  have indep: "filter is_dispatch (run_directory_scan None env flag path) =
       (if isInterruptionRequested flag 0 then []
        else filter is_dispatch (run_directory_scan None env None path))"
    using relay_dispatch [of flag 1 "snd (scan_directory env path 5)"]
    by (simp add: run_directory_scan_unfold run_tail_dispatch)
      (simp add: isInterruptionRequested_def)
  have files: "filter is_dispatch (run_directory_scan None env flag path) =
          (if isInterruptionRequested flag 0 then [] else map Dispatch files)
        \<and> submitted (snd (scan_directory env path 5)) = files
        \<and> scanning_reports (snd (scan_directory env path 5)) =
            map basename (as_completed (env_schedule env) 0 files)
        \<and> length (as_completed (env_schedule env) 0 files) = length files
        \<and> set (as_completed (env_schedule env) 0 files) = set files
        \<and> length (filter is_poll (run_directory_scan None env flag path)) =
            (if isInterruptionRequested flag 0 then 1
             else length files + 7
                  + (if isInterruptionRequested flag (length files + 6) then 0 else 1))"
    if h: "env_isdir env" "env_collect env = Inr files" "files \<noteq> []"
  proof -
    have five: "(0::int) < 5" by simp
    note sub = scan_directory_submitted [OF h five, of path]
    note rep = scan_directory_reports [OF h five, of path]
    note calls = scan_directory_calls [OF h five, of path]
    from scan_directory_returns [OF h(1), of path 5]
    obtain result where res: "fst (scan_directory env path 5) = Inr result" by blast
    have d: "filter is_dispatch (run_directory_scan None env flag path) =
          (if isInterruptionRequested flag 0 then [] else map Dispatch files)"
      by (simp add: run_directory_scan_unfold run_tail_dispatch relay_submitted sub)
    have p: "length (filter is_poll (run_directory_scan None env flag path)) =
            (if isInterruptionRequested flag 0 then 1
             else length files + 7
                  + (if isInterruptionRequested flag (length files + 6) then 0 else 1))"
      by (simp add: run_directory_scan_unfold relay_polls relay_reads calls res run_tail_polls
          add.commute)
    from d sub rep p show ?thesis
      by (simp add: length_as_completed set_as_completed)
  qed
  from run_directory_scan_quiet [of init env flag path] indep files show ?thesis
    by blast
qed

theorem scan_thread_interruption_witness:
  "env_isdir one_file_env \<and> env_collect one_file_env = Inr [''proj/a.py'']
   \<and> filter is_dispatch (run_directory_scan None one_file_env (Some 2) ''proj'')
       = [Dispatch ''proj/a.py'']
   \<and> scanning_reports (snd (scan_directory one_file_env ''proj'' 5)) = [''a.py'']
   \<and> length (filter is_poll (run_directory_scan None one_file_env (Some 2) ''proj'')) = 8
   \<and> quiet_after_set (run_directory_scan None one_file_env (Some 2) ''proj'')"
proof -
  have h1: "env_isdir one_file_env" by (simp add: one_file_env_def)
  have h2: "env_collect one_file_env = Inr [''proj/a.py'']" by (simp add: one_file_env_def)
  have o: "as_completed (env_schedule one_file_env) 0 [''proj/a.py''] = [''proj/a.py'']"
    by (simp add: as_completed.simps)
  have b: "basename ''proj/a.py'' = ''a.py''" by (simp add: basename_def)
  have f0: "\<not> isInterruptionRequested (Some 2) 0" "isInterruptionRequested (Some 2) 7"
    by (simp_all add: isInterruptionRequested_def)
  note t = scan_thread_interruption [of None one_file_env "Some 2" "''proj''" "[''proj/a.py'']"]
  from t have q: "quiet_after_set (run_directory_scan None one_file_env (Some 2) ''proj'')"
    by (rule conjunct1)
  from t h1 h2 have
    d: "filter is_dispatch (run_directory_scan None one_file_env (Some 2) ''proj'') =
          (if isInterruptionRequested (Some 2) 0 then [] else map Dispatch [''proj/a.py''])"
    and r: "scanning_reports (snd (scan_directory one_file_env ''proj'' 5)) =
          map basename (as_completed (env_schedule one_file_env) 0 [''proj/a.py''])"
    and p: "length (filter is_poll (run_directory_scan None one_file_env (Some 2) ''proj'')) =
          (if isInterruptionRequested (Some 2) 0 then 1
           else length [''proj/a.py''] + 7
                + (if isInterruptionRequested (Some 2) (length [''proj/a.py''] + 6) then 0 else 1))"
    by blast+
  from d f0 have d': "filter is_dispatch (run_directory_scan None one_file_env (Some 2) ''proj'')
       = [Dispatch ''proj/a.py'']"
    by simp
  from r o b have r': "scanning_reports (snd (scan_directory one_file_env ''proj'' 5)) = [''a.py'']"
    by simp
  from p f0 have p': "length (filter is_poll (run_directory_scan None one_file_env (Some 2) ''proj'')) = 8"
    by simp
  from h1 h2 d' r' p' q show ?thesis by blast
qed

text \<open>
  C8, as stated, fails: nothing reads the flag before a file is dispatched.  A
  directory with one file, the flag set after the first read: both progress calls of the
  scanner are swallowed, and the file is handed to the worker pool all the same.
\<close>

theorem scan_thread_dispatch_counterexample:
  "run_directory_scan None one_file_env (Some 1) ''proj'' =
     [Poll False, EmitProgress (MsgPreparing ''proj'') 0, Poll True, Poll True,
      Dispatch ''proj/a.py'', Poll True, Poll True, Poll True, Poll True, Poll True]
   \<and> \<not> no_dispatch_after_set (run_directory_scan None one_file_env (Some 1) ''proj'')"
  by code_simp

section \<open>A failing adapter\<close>

text \<open>
  C4.  When the call of the analysis adapter for a file raises an exception \<open>e\<close>
  (authentication failure, timeout, connection failure or any other class that
  \<^verbatim>\<open>except Exception\<close> catches), \<^verbatim>\<open>_analyze_file_content\<close> raises nothing and returns exactly
  one finding: severity \<^verbatim>\<open>info\<close>, confidence \<^verbatim>\<open>high\<close>, attributed to the file, its description
  the fixed prefix followed by \<^verbatim>\<open>str(e)\<close>.
\<close>

theorem analyze_file_content_adapter_raises:
  assumes "an_model env (an_prompt env (get_file_language fpath) fpath content) = Inl e"
  shows "analyze_file_content env patterns fpath content =
           [\<lparr>severity = ''info'', file_path = fpath, line_number = None, code_snippet = None,
             description = api_error_prefix @ exn_str e,
             recommendation = api_error_recommendation, cwe_id = None, confidence = ''high''\<rparr>]"
  using assms
  by (simp add: analyze_file_content_def analysis_body_def Let_def api_error_issue_def)

theorem analyze_file_content_adapter_raises_witness:
  "an_model timeout_env (an_prompt timeout_env (get_file_language ''app.py'') ''app.py'' ''x = 1'')
     = Inl (Raised APITimeoutError ''Request timed out.'')
   \<and> analyze_file_content timeout_env example_store ''app.py'' ''x = 1'' =
       [\<lparr>severity = ''info'', file_path = ''app.py'', line_number = None, code_snippet = None,
         description = api_error_prefix @ ''Request timed out.'',
         recommendation = api_error_recommendation, cwe_id = None, confidence = ''high''\<rparr>]"
proof -
  have h: "an_model timeout_env (an_prompt timeout_env (get_file_language ''app.py'') ''app.py'' ''x = 1'')
     = Inl (Raised APITimeoutError ''Request timed out.'')"
    by (simp add: timeout_env_def)
  from analyze_file_content_adapter_raises [OF h, of example_store] h show ?thesis
    by simp
qed

section \<open>Excluded directories\<close>

lemma split_on_nonempty: "split_on sep s \<noteq> []"
  by (induction s) (auto split: list.splits)

lemma split_on_append: "split_on sep (a @ sep # b) = split_on sep a @ split_on sep b"
proof (induction a)
  case Nil
  show ?case by simp
next
  case (Cons x a)
  show ?case
  proof (cases "x = sep")
    case True
    with Cons show ?thesis by simp
  next
    case False
    obtain part parts where sp: "split_on sep a = part # parts"
      using split_on_nonempty [of sep a] by (cases "split_on sep a") auto
    with Cons False show ?thesis by simp
  qed
qed

lemma split_on_single: "sep \<notin> set b \<Longrightarrow> split_on sep b = [b]"
  by (induction b) auto

lemma split_on_snoc_sep: "split_on sep (a @ [sep]) = split_on sep a @ [[]]"
  using split_on_append [of sep a "[]"] by simp

lemma path_segments_join:
  assumes "entry_name b"
  shows "path_segments (os_path_join a b) = path_segments a @ [b]"
proof -
  from assms have b: "b \<noteq> []" "CHR ''/'' \<notin> set b" "b \<noteq> ''.''"
    by (simp_all add: entry_name_def)
  then have nb: "take 1 b \<noteq> ''/''" by (cases b) auto
  show ?thesis
  proof (cases "a = []")
    case True
    with b nb show ?thesis
      by (simp add: os_path_join_def path_segments_def split_on_single)
  next
    case False
    show ?thesis
    proof (cases "last a = CHR ''/''")
      case True
      with False obtain a' where a: "a = a' @ [CHR ''/'']"
        by (metis append_butlast_last_id)
      have "path_segments (a' @ CHR ''/'' # b) = path_segments a' @ [b]"
        using b by (simp add: path_segments_def split_on_append split_on_single)
      moreover have "path_segments a = path_segments a'"
        by (simp add: a path_segments_def split_on_snoc_sep)
      ultimately show ?thesis
        using nb True False by (simp add: os_path_join_def a)
    next
      case l: False
      have "path_segments (a @ CHR ''/'' # b) = path_segments a @ [b]"
        using b by (simp add: path_segments_def split_on_append split_on_single)
      with nb l False show ?thesis by (simp add: os_path_join_def)
    qed
  qed
qed

lemma path_anchor_join:
  assumes "entry_name b"
  shows "path_anchor (os_path_join a b) = path_anchor a"
proof -
  from assms obtain c b' where b: "b = c # b'" "c \<noteq> CHR ''/''"
    by (cases b) (auto simp: entry_name_def)
  show ?thesis
  proof (cases a)
    case Nil
    with b show ?thesis by (simp add: os_path_join_def path_anchor_def)
  next
    case (Cons x a1)
    note a = this
    show ?thesis
    proof (cases a1)
      case Nil
      with a b show ?thesis by (simp add: os_path_join_def path_anchor_def)
    next
      case (Cons y a2)
      note a1 = this
      show ?thesis
      proof (cases a2)
        case Nil
        with a a1 b show ?thesis by (simp add: os_path_join_def path_anchor_def)
      next
        case (Cons z a3)
        with a a1 b show ?thesis by (simp add: os_path_join_def path_anchor_def)
      qed
    qed
  qed
qed

lemma path_parts_join: "entry_name b \<Longrightarrow> path_parts (os_path_join a b) = path_parts a @ [b]"
  by (simp add: path_parts_def path_segments_join path_anchor_join)

lemma files_to_scan_in_filtered:
  "p \<in> set (files_to_scan_in cfg rootp entries) \<Longrightarrow>
   \<not> list_ex (\<lambda>d. d \<in> set (path_parts p)) (excluded_dirs cfg)"
  by (induction cfg rootp entries rule: files_to_scan_in.induct)
    (auto simp: should_exclude_path_def split: if_splits)

lemma walk_filtered:
  "p \<in> set (walk_node cfg rootp entry) \<Longrightarrow>
     \<not> list_ex (\<lambda>d. d \<in> set (path_parts p)) (excluded_dirs cfg)"
  "p \<in> set (walk_dirs cfg rootp entries) \<Longrightarrow>
     \<not> list_ex (\<lambda>d. d \<in> set (path_parts p)) (excluded_dirs cfg)"
  by (induction cfg rootp entry and cfg rootp entries rule: walk_node_walk_dirs.induct)
    (auto dest: files_to_scan_in_filtered split: if_splits)

lemma collect_files_filtered:
  "p \<in> set (collect_files cfg path entries) \<Longrightarrow>
   \<not> list_ex (\<lambda>d. d \<in> set (path_parts p)) (excluded_dirs cfg)"
  by (auto simp: collect_files_def dest: files_to_scan_in_filtered walk_filtered)

lemma located_parts:
  "entry_names_node entry \<Longrightarrow> (p, dirs) \<in> set (located_node rootp ancestors entry) \<Longrightarrow>
     \<exists>rest name. dirs = ancestors @ rest \<and> path_parts p = path_parts rootp @ rest @ [name]"
  "entry_names entries \<Longrightarrow> (p, dirs) \<in> set (located_in rootp ancestors entries) \<Longrightarrow>
     \<exists>rest name. dirs = ancestors @ rest \<and> path_parts p = path_parts rootp @ rest @ [name]"
proof (induction rootp ancestors entry and rootp ancestors entries
    arbitrary: p dirs and p dirs rule: located_node_located_in.induct)
  case (1 rootp ancestors name size_bytes binary)
  then show ?case by (simp add: path_parts_join)
next
  case (2 rootp ancestors name children)
  from "2.prems" have "entry_names children"
    and "(p, dirs) \<in> set (located_in (os_path_join rootp name) (ancestors @ [name]) children)"
    by simp_all
  from "2.IH" [OF this] obtain rest n where
    "dirs = (ancestors @ [name]) @ rest"
    "path_parts p = path_parts (os_path_join rootp name) @ rest @ [n]"
    by blast
  moreover from "2.prems" have "entry_name name" by simp
  ultimately have "dirs = ancestors @ (name # rest)"
    "path_parts p = path_parts rootp @ (name # rest) @ [n]"
    by (simp_all add: path_parts_join)
  then show ?case by blast
next
  case (3 rootp ancestors)
  then show ?case by simp
next
  case (4 rootp ancestors entry entries)
  then show ?case by auto
qed

text \<open>The walk on the example tree: the dependency directory, the minified file and the binary file are left out.\<close>

lemma collect_files_example:
  "collect_files example_config ''proj'' example_tree = [''proj/main.py'', ''proj/src/app.js'']"
  by (simp add: collect_files_def example_tree_def example_config_def should_exclude_path_def
      os_path_join_def path_parts_def path_anchor_def path_segments_def endswith_def)

text \<open>
  C7.  For every root path, every tree below it and every configuration: a file that
  lies anywhere below a directory whose name is in the excluded-directory set is not in
  the list \<^verbatim>\<open>_collect_files\<close> returns, whatever its own name, size and content are.
\<close>

theorem collect_files_skips_excluded:
  assumes "entry_names entries"
    and "(p, dirs) \<in> set (located_in path [] entries)"
    and "d \<in> set dirs"
    and "d \<in> set (excluded_dirs cfg)"
  shows "p \<notin> set (collect_files cfg path entries)"
proof
  assume "p \<in> set (collect_files cfg path entries)"
  then have no: "\<not> list_ex (\<lambda>d. d \<in> set (path_parts p)) (excluded_dirs cfg)"
    by (rule collect_files_filtered)
  from located_parts(2) [OF assms(1,2)] obtain rest name where
    "dirs = rest" "path_parts p = path_parts path @ rest @ [name]"
    by auto
  with assms(3) have "d \<in> set (path_parts p)" by simp
  with assms(4) no show False by (auto simp: list_ex_iff)
qed

theorem collect_files_skips_excluded_witness:
  "entry_names example_tree
   \<and> (''proj/node_modules/pkg/index.js'', [''node_modules'', ''pkg''])
       \<in> set (located_in ''proj'' [] example_tree)
   \<and> ''node_modules'' \<in> set (excluded_dirs example_config)
   \<and> ''proj/node_modules/pkg/index.js'' \<notin> set (collect_files example_config ''proj'' example_tree)"
proof -
  have h1: "entry_names example_tree"
    by (simp add: example_tree_def entry_name_def)
  have h2: "(''proj/node_modules/pkg/index.js'', [''node_modules'', ''pkg''])
       \<in> set (located_in ''proj'' [] example_tree)"
    by (simp add: example_tree_def os_path_join_def)
  have h3: "''node_modules'' \<in> set [''node_modules'', ''pkg'']"
    by simp
  have h4: "''node_modules'' \<in> set (excluded_dirs example_config)"
    by (simp add: example_config_def)
  from collect_files_skips_excluded [OF h1 h2 h3 h4] h1 h2 h4 show ?thesis
    by simp
qed

section \<open>Round trip of a scan result\<close>

lemma and_then_Inr: "and_then (Inr x) f = f x"
  by (simp add: and_then_def)

lemma as_opt_int_opt_val: "as_opt_int (opt_val PInt v) = Inr v"
  by (cases v) (simp_all add: opt_val_def)

lemma as_opt_str_opt_val: "as_opt_str (opt_val PStr v) = Inr v"
  by (cases v) (simp_all add: opt_val_def)

lemma issue_from_dict_vars: "issue_from_dict (issue_vars i) = Inr i"
  by (simp add: issue_from_dict_def issue_vars_def issue_fields_def dict_get_def and_then_Inr
      as_opt_int_opt_val as_opt_str_opt_val)

lemma issues_from_list_vars:
  "issues_from_list (map (\<lambda>i. PDict (issue_vars i)) xs) = Inr xs"
  by (induction xs) (simp_all add: and_then_Inr issue_from_dict_vars)

text \<open>
  C6.  For every scan result, \<^verbatim>\<open>from_dict(to_dict(r))\<close> and \<^verbatim>\<open>from_json(to_json(r))\<close> raise
  nothing and return a scan result equal to \<open>r\<close>: the same findings with the same field
  values in the same order, the same stats, and the same other fields.
\<close>

theorem scan_result_roundtrip:
  "from_dict (to_dict r) = Inr r \<and> from_json (to_json r) = Inr r"
proof -
  have "from_dict (to_dict r) = Inr r"
    by (simp add: from_dict_def to_dict_def result_fields_def dict_get_def and_then_Inr
        issues_from_list_vars)
  then show ?thesis
    by (simp add: from_json_def to_json_def json_dumps_def and_then_Inr)
qed

section \<open>Import of a disjunction\<close>

text \<open>
  C2 (the code at the failing input).  A directory with one rules file, whose one rule
  has \<^verbatim>\<open>pattern-either: ["foo", "bar"]\<close> as its only pattern key and declares the language
  \<^verbatim>\<open>python\<close>.  The import yields exactly one converted rule, in the bucket \<^verbatim>\<open>python\<close> and in no
  other.  The alternatives are joined with \<^verbatim>\<open>|\<close> and the result is then escaped, so the
  stored pattern is \<^verbatim>\<open>foo\|bar\<close>: as the engine's case-insensitive regular expression it
  matches neither a content with \<^verbatim>\<open>foo\<close> nor one with \<^verbatim>\<open>bar\<close>, only the text \<^verbatim>\<open>foo|bar\<close> itself.
\<close>

theorem convert_pattern_either_escaped:
  "convert_semgrep_rules_dir (\<lambda>v. []) [Inr either_document] =
     [(''common'', []), (''python'', [either_converted]), (''javascript'', []), (''java'', []),
      (''go'', []), (''ruby'', []), (''php'', []), (''c'', []), (''cpp'', [])]
   \<and> conv_pattern either_converted = ''foo'' @ [CHR 0x5C] @ ''|bar''
   \<and> re_search_ci (conv_pattern either_converted) ''x = foo(1)'' = Some False
   \<and> re_search_ci (conv_pattern either_converted) ''y = bar(2)'' = Some False
   \<and> re_search_ci (conv_pattern either_converted) ''a FOO|BAR b'' = Some True"
  by code_simp

end
